theory Spec2Isabelle
  imports Complex_Main "HOL-Library.Log_Nat"
begin

section \<open>The course reader (src/pages/CourseReader.tsx)\<close>

text \<open>
  The reader is one React component. Its state hooks become the fields of the record
  \<open>reader\<close>; each effect and each handler becomes a function from the state before to the
  state after. The remote API and the browser's local storage are read through the record
  \<open>env\<close>. An exception that leaves an effect is a value: the effects that can raise return
  the state reached together with \<open>Some error\<close>.

  The handlers also write: \<open>localStorage.setItem\<close> and fire-and-forget \<open>POST\<close>s whose
  outcome is caught and dropped. These writes never flow back into the state within the
  functions below and are not part of the record; toasts are, since one of them is the
  signal that the course is finished.
\<close>

subsection \<open>JavaScript numbers\<close>

text \<open>
  \<open>viewedCount / totalPages * 100\<close> is computed on IEEE 754 doubles. A double is modelled by
  the rational it denotes. \<open>fl x\<close> is the double nearest to \<open>x\<close>: 53 significant bits,
  ties to even. The exponent is not bounded, so the model agrees with the machine on the
  normal range, which page counts never leave. \<open>binade x\<close> is the exponent \<open>k\<close> with
  \<open>2 ^ k \<le> x < 2 ^ (k + 1)\<close>.
\<close>

definition rne :: "rat \<Rightarrow> int" where
  "rne x = (let f = \<lfloor>x\<rfloor>; d = x - of_int f
            in if d < 1 / 2 then f else if 1 / 2 < d then f + 1
               else if even f then f else f + 1)"

definition binade :: "rat \<Rightarrow> int" where
  "binade x = (let (p, q) = quotient_of x; k = bitlen p - bitlen q
               in if 2 powi k \<le> x then k else k - 1)"

definition ulp :: "rat \<Rightarrow> rat" where
  "ulp x = 2 powi (binade x - 52)"

definition fl :: "rat \<Rightarrow> rat" where
  "fl x = (if x \<le> 0 then 0 else of_int (rne (x / ulp x)) * ulp x)"

text \<open>
  Division and multiplication round the exact result. The component divides only after
  it has checked that the divisor is not 0.
\<close>

definition js_div :: "rat \<Rightarrow> rat \<Rightarrow> rat" where
  "js_div a b = fl (a / b)"

definition js_mul :: "rat \<Rightarrow> rat \<Rightarrow> rat" where
  "js_mul a b = fl (a * b)"

text \<open>\<open>Math.round\<close>: the nearest integer, a tie going up.\<close>

definition Math_round :: "rat \<Rightarrow> int" where
  "Math_round x = \<lfloor>x + 1 / 2\<rfloor>"

text \<open>The rounding the specification writes: \<open>round(100 * v / t)\<close> in exact arithmetic.\<close>

definition spec_round_percent :: "nat \<Rightarrow> nat \<Rightarrow> int" where
  "spec_round_percent v t = (200 * int v + int t) div (2 * int t)"

subsection \<open>Data\<close>

record Topic =
  t_id :: string
  t_title :: string
  images :: "string list"

record Course =
  c_id :: string
  c_title :: string
  c_topics :: "Topic list option"
  price :: "int option"
  userHasAccess :: "bool option"

record bookmark =
  topicId :: string
  imageIndex :: int

type_synonym notes_map = "string \<rightharpoonup> (int \<rightharpoonup> string)"

text \<open>
  The three toasts of the component: \<open>Topic Completed\<close> (with the topic's title or
  \<open>Topic\<close>), \<open>Course Completed\<close>, and the auto-completion toast.
\<close>

datatype toast = Topic_Completed string | Course_Completed | Topic_Auto_Completed string

record reader =
  course :: "Course option"
  topics :: "Topic list"
  activeTopicIndex :: nat
  currentPage :: int
  progress :: "string \<rightharpoonup> int"
  page_notes :: notes_map
  viewedPages :: "string \<rightharpoonup> int set"
  completedTopics :: "string \<rightharpoonup> bool"
  toasts :: "toast list"

text \<open>The state at mount, as the \<open>useState\<close> initialisers give it.\<close>

definition initial :: reader where
  "initial = \<lparr>course = None, topics = [], activeTopicIndex = 0, currentPage = 0,
     progress = Map.empty, page_notes = Map.empty, viewedPages = Map.empty,
     completedTopics = Map.empty, toasts = []\<rparr>"

datatype js_error = NetworkError | SyntaxError | TypeError

text \<open>
  What the component reads from outside. Each \<open>get_\<close> field is the outcome of one
  \<open>apiClient.get\<close> followed by the property reads on its result: \<open>Inl\<close> when anything in
  that \<open>try\<close> block throws, \<open>Inr None\<close> when the payload is \<open>null\<close> or \<open>undefined\<close>.
  \<open>JSON.parse\<close> is the platform's: the environment gives what it returns on each string at
  the TypeScript type the code reads it at, or the exception it throws. For the bookmark
  \<open>Inr None\<close> is the parsed value \<open>null\<close>.
\<close>

record env =
  courseId :: "string option"
  get_course :: "js_error + Course option"
  get_progress :: "js_error + (string \<rightharpoonup> int) option"
  get_notes :: "js_error + notes_map option"
  get_bookmark :: "js_error + bookmark option"
  localStorage :: "string \<rightharpoonup> string"
  JSON_parse_notes :: "string \<Rightarrow> js_error + notes_map"
  JSON_parse_bookmark :: "string \<Rightarrow> js_error + bookmark option"

subsection \<open>The fallback topics\<close>

text \<open>The decimal numeral a template literal prints for a non-negative integer.\<close>

fun string_of_nat :: "nat \<Rightarrow> string" where
  "string_of_nat n =
     (if n < 10 then [''0123456789'' ! n]
      else string_of_nat (n div 10) @ [''0123456789'' ! (n mod 10)])"

declare string_of_nat.simps [simp del]

definition course_image :: "nat \<Rightarrow> string" where
  "course_image n = ''/course/'' @ string_of_nat n @ ''.jpeg''"

definition Array_from :: "nat \<Rightarrow> (nat \<Rightarrow> 'a) \<Rightarrow> 'a list" where
  "Array_from len f = map f [0..<len]"

definition buildFallbackTopics :: "Topic list" where
  "buildFallbackTopics =
    [\<lparr>t_id = ''t1'', t_title = ''Introduction'',
       images = Array_from 17 (\<lambda>i. course_image (2 + i))\<rparr>,
     \<lparr>t_id = ''t2'', t_title = ''Understanding Doji Candles'',
       images = Array_from 4 (\<lambda>i. course_image (19 + i))\<rparr>,
     \<lparr>t_id = ''t3'', t_title = ''The '' @ [CHR 0x22] @ ''Dicy Reversal'' @ [CHR 0x22] @ '' Setup'',
       images = Array_from 7 (\<lambda>i. course_image (23 + i))\<rparr>,
     \<lparr>t_id = ''t4'', t_title = ''Entry & Exit Rules'',
       images = Array_from 5 (\<lambda>i. course_image (30 + i))\<rparr>,
     \<lparr>t_id = ''t5'', t_title = ''Risk Management'',
       images = Array_from 13 (\<lambda>i. course_image (35 + i))\<rparr>,
     \<lparr>t_id = ''t6'', t_title = ''Practical Examples'',
       images = Array_from 5 (\<lambda>i. course_image (48 + i))\<rparr>,
     \<lparr>t_id = ''t7'', t_title = ''Final Thoughts'',
       images = Array_from 4 (\<lambda>i. course_image (53 + i))\<rparr>,
     \<lparr>t_id = ''t8'', t_title = ''Author'' @ [CHR 0x27] @ ''s Message'',
       images = Array_from 2 (\<lambda>i. course_image (57 + i))\<rparr>]"

subsection \<open>Loading the course\<close>

text \<open>A template literal prints an undefined route parameter as \<open>undefined\<close>.\<close>

definition template :: "string option \<Rightarrow> string" where
  "template cid = (case cid of None \<Rightarrow> ''undefined'' | Some s \<Rightarrow> s)"

text \<open>The keys \<open>`notes_${courseId}`\<close> and \<open>`bookmark_${courseId}`\<close> of the local storage.\<close>

definition notes_key :: "env \<Rightarrow> string" where
  "notes_key e = ''notes_'' @ template (courseId e)"

definition bookmark_key :: "env \<Rightarrow> string" where
  "bookmark_key e = ''bookmark_'' @ template (courseId e)"

definition falsy :: "string option \<Rightarrow> bool" where
  "falsy cid = (cid = None \<or> cid = Some [])"

text \<open>\<open>p[t._id] = completedTopics[t._id] ? 100 : 0\<close> for each topic, in order.\<close>

definition progress_of_completed :: "(string \<rightharpoonup> bool) \<Rightarrow> Topic list \<Rightarrow> (string \<rightharpoonup> int)" where
  "progress_of_completed completed ts =
     foldl (\<lambda>p t. p(t_id t \<mapsto> (if completed (t_id t) = Some True then 100 else 0))) Map.empty ts"

definition fallback_course :: "string \<Rightarrow> Course" where
  "fallback_course cid =
     \<lparr>c_id = cid, c_title = ''Option Analysis Strategy by A. Bhattacharjee'',
      c_topics = Some buildFallbackTopics, price = Some 1499, userHasAccess = Some True\<rparr>"

definition use_fallback :: "string \<Rightarrow> reader \<Rightarrow> reader" where
  "use_fallback cid st =
     st\<lparr>course := Some (fallback_course cid), topics := buildFallbackTopics,
        progress := progress_of_completed (completedTopics st) buildFallbackTopics\<rparr>"

text \<open>
  \<open>const ls = localStorage.getItem(`notes_${courseId}`); if (ls) setNotes(JSON.parse(ls))\<close>.
  The parse is not guarded: what it throws leaves the block.
\<close>

definition notes_from_cache :: "env \<Rightarrow> reader \<Rightarrow> reader \<times> js_error option" where
  "notes_from_cache e st =
     (case localStorage e (notes_key e) of
        None \<Rightarrow> (st, None)
      | Some ls \<Rightarrow>
          if ls = [] then (st, None)
          else (case JSON_parse_notes e ls of
                  Inl err \<Rightarrow> (st, Some err)
                | Inr n \<Rightarrow> (st\<lparr>page_notes := n\<rparr>, None)))"

text \<open>The outer \<open>catch\<close>: the fallback course, then the cached notes.\<close>

definition network_error_fallback :: "env \<Rightarrow> string \<Rightarrow> reader \<Rightarrow> reader \<times> js_error option" where
  "network_error_fallback e cid st = notes_from_cache e (use_fallback cid st)"

definition loadCourse :: "env \<Rightarrow> reader \<Rightarrow> reader \<times> js_error option" where
  "loadCourse e st =
     (if falsy (courseId e) then (st, None)
      else
        let cid = template (courseId e) in
        case get_course e of
          Inl err \<Rightarrow> network_error_fallback e cid st
        | Inr None \<Rightarrow> (use_fallback cid st, None)
        | Inr (Some courseData) \<Rightarrow>
            let courseData =
                  (if c_topics courseData = None \<or> c_topics courseData = Some []
                   then courseData\<lparr>c_topics := Some buildFallbackTopics\<rparr> else courseData);
                ts = (case c_topics courseData of None \<Rightarrow> [] | Some ts \<Rightarrow> ts);
                st1 = st\<lparr>course := Some courseData, topics := ts\<rparr>;
                st2 = (case get_progress e of
                         Inr pr \<Rightarrow> st1\<lparr>progress := (case pr of None \<Rightarrow> Map.empty | Some m \<Rightarrow> m)\<rparr>
                       | Inl err \<Rightarrow>
                           st1\<lparr>progress := progress_of_completed (completedTopics st) ts\<rparr>)
            in case get_notes e of
                 Inr n \<Rightarrow> (st2\<lparr>page_notes := (case n of None \<Rightarrow> Map.empty | Some m \<Rightarrow> m)\<rparr>, None)
               | Inl err \<Rightarrow>
                   (case notes_from_cache e st2 of
                      (st3, None) \<Rightarrow> (st3, None)
                    | (st3, Some thrown) \<Rightarrow> network_error_fallback e cid st3))"

text \<open>\<open>const isLocked = !!course && course.userHasAccess === false\<close>\<close>

definition isLocked :: "reader \<Rightarrow> bool" where
  "isLocked st = (case course st of None \<Rightarrow> False | Some c \<Rightarrow> userHasAccess c = Some False)"

subsection \<open>Loading the bookmark\<close>

fun findIndex :: "('a \<Rightarrow> bool) \<Rightarrow> 'a list \<Rightarrow> int" where
  "findIndex P [] = - 1"
| "findIndex P (x # xs) =
     (if P x then 0 else (let i = findIndex P xs in if i < 0 then - 1 else i + 1))"

text \<open>
  Both branches of the effect end in the same lines: look the topic up, and if it is
  there set the active topic and the page to what the bookmark says.
\<close>

definition apply_bookmark :: "bookmark \<Rightarrow> reader \<Rightarrow> reader" where
  "apply_bookmark bm st =
     (let topicIndex = findIndex (\<lambda>t. t_id t = topicId bm) (topics st)
      in if 0 \<le> topicIndex
         then st\<lparr>activeTopicIndex := nat topicIndex, currentPage := imageIndex bm\<rparr>
         else st)"

definition loadBookmark :: "env \<Rightarrow> reader \<Rightarrow> reader \<times> js_error option" where
  "loadBookmark e st =
     (case get_bookmark e of
        Inr None \<Rightarrow> (st, None)
      | Inr (Some bm) \<Rightarrow> (apply_bookmark bm st, None)
      | Inl err \<Rightarrow>
          (case localStorage e (bookmark_key e) of
             None \<Rightarrow> (st, None)
           | Some ls \<Rightarrow>
               if ls = [] then (st, None)
               else (case JSON_parse_bookmark e ls of
                       Inl thrown \<Rightarrow> (st, Some thrown)
                     | Inr None \<Rightarrow> (st, Some TypeError)
                     | Inr (Some bm) \<Rightarrow> (apply_bookmark bm st, None))))"

subsection \<open>Viewed pages and progress\<close>

text \<open>\<open>const activeTopic = topics[activeTopicIndex]\<close>, \<open>None\<close> for \<open>undefined\<close>.\<close>

definition activeTopic :: "reader \<Rightarrow> Topic option" where
  "activeTopic st =
     (if activeTopicIndex st < length (topics st) then Some (topics st ! activeTopicIndex st)
      else None)"

text \<open>
  The updater passed to \<open>setViewedPages\<close> when the page changes: copy the sets, create the
  active topic's set if there is none, add the page.
\<close>

definition markPageViewed :: "string \<Rightarrow> int \<Rightarrow> (string \<rightharpoonup> int set) \<Rightarrow> (string \<rightharpoonup> int set)" where
  "markPageViewed tid page prev =
     prev(tid \<mapsto> insert page (case prev tid of None \<Rightarrow> {} | Some s \<Rightarrow> s))"

definition viewed_page_effect :: "reader \<Rightarrow> reader" where
  "viewed_page_effect st =
     (case activeTopic st of
        None \<Rightarrow> st
      | Some t \<Rightarrow> st\<lparr>viewedPages := markPageViewed (t_id t) (currentPage st) (viewedPages st)\<rparr>)"

text \<open>\<open>new Set(topic.images.map((_, i) => i))\<close>\<close>

definition all_pages :: "Topic \<Rightarrow> int set" where
  "all_pages t = {0..<int (length (images t))}"

text \<open>
  \<open>weightedProgress\<close>: \<open>pageCount\<close> and \<open>viewed\<close> are the two constants of the loop body,
  \<open>page_counts\<close> is the pair \<open>(totalPages, viewedCount)\<close> after \<open>topics.forEach\<close>.
\<close>

definition pageCount :: "Topic \<Rightarrow> nat" where
  "pageCount topic = length (images topic)"

definition viewed :: "(string \<rightharpoonup> int set) \<Rightarrow> Topic \<Rightarrow> nat" where
  "viewed vp topic = (case vp (t_id topic) of None \<Rightarrow> 0 | Some s \<Rightarrow> card s)"

definition count_topic :: "(string \<rightharpoonup> int set) \<Rightarrow> nat \<times> nat \<Rightarrow> Topic \<Rightarrow> nat \<times> nat" where
  "count_topic vp acc topic =
     (case acc of (totalPages, viewedCount) \<Rightarrow>
        (totalPages + pageCount topic, viewedCount + viewed vp topic))"

definition page_counts :: "reader \<Rightarrow> nat \<times> nat" where
  "page_counts st = foldl (count_topic (viewedPages st)) (0, 0) (topics st)"

definition percent :: "nat \<Rightarrow> nat \<Rightarrow> int" where
  "percent viewedCount totalPages =
     (if totalPages = 0 then 0
      else Math_round (js_mul (js_div (of_nat viewedCount) (of_nat totalPages)) 100))"

definition weightedProgress :: "reader \<Rightarrow> int" where
  "weightedProgress st = (case page_counts st of (totalPages, viewedCount) \<Rightarrow>
     percent viewedCount totalPages)"

text \<open>
  The two sums of the specification: the pages of all topics, and the viewed pages of all
  topics.
\<close>

definition total_pages :: "reader \<Rightarrow> nat" where
  "total_pages st = (\<Sum>t\<leftarrow>topics st. pageCount t)"

definition viewed_pages_count :: "reader \<Rightarrow> nat" where
  "viewed_pages_count st = (\<Sum>t\<leftarrow>topics st. viewed (viewedPages st) t)"

subsection \<open>Completing a topic\<close>

definition markTopicComplete :: "reader \<Rightarrow> string \<Rightarrow> reader" where
  "markTopicComplete st tid =
     (let st1 = st\<lparr>progress := (progress st)(tid \<mapsto> 100)\<rparr>;
          st2 = st1\<lparr>completedTopics := (completedTopics st1)(tid \<mapsto> True)\<rparr>;
          topic = find (\<lambda>t. t_id t = tid) (topics st);
          st3 = (case topic of
                   None \<Rightarrow> st2
                 | Some t \<Rightarrow> st2\<lparr>viewedPages := (viewedPages st2)(tid \<mapsto> all_pages t)\<rparr>);
          st4 = st3\<lparr>toasts := toasts st3 @
                   [Topic_Completed (case topic of None \<Rightarrow> ''Topic'' | Some t \<Rightarrow> t_title t)]\<rparr>;
          nextIndex = activeTopicIndex st + 1
      in if nextIndex < length (topics st)
         then st4\<lparr>activeTopicIndex := nextIndex, currentPage := 0\<rparr>
         else st4\<lparr>toasts := toasts st4 @ [Course_Completed]\<rparr>)"

text \<open>\<open>(progress[activeTopic._id] || 0)\<close>\<close>

definition progress_or_0 :: "reader \<Rightarrow> string \<Rightarrow> int" where
  "progress_or_0 st tid = (case progress st tid of None \<Rightarrow> 0 | Some n \<Rightarrow> n)"

definition auto_complete_effect :: "reader \<Rightarrow> reader" where
  "auto_complete_effect st =
     (case activeTopic st of
        None \<Rightarrow> st
      | Some t \<Rightarrow>
          let lastPage = int (length (images t)) - 1 in
          if currentPage st = lastPage \<and> progress_or_0 st (t_id t) < 100
          then st\<lparr>progress := (progress st)(t_id t \<mapsto> 100),
                  viewedPages := (viewedPages st)(t_id t \<mapsto> all_pages t),
                  completedTopics := (completedTopics st)(t_id t \<mapsto> True),
                  toasts := toasts st @ [Topic_Auto_Completed (t_title t)]\<rparr>
          else st)"

subsection \<open>Sequences of calls\<close>

datatype call = MarkPageViewed string int | MarkTopicComplete string

fun apply_call :: "reader \<Rightarrow> call \<Rightarrow> reader" where
  "apply_call st (MarkPageViewed tid page) =
     st\<lparr>viewedPages := markPageViewed tid page (viewedPages st)\<rparr>"
| "apply_call st (MarkTopicComplete tid) = markTopicComplete st tid"

text \<open>A page index is valid when it lies in the range of the topic the id names.\<close>

fun valid_call :: "Topic list \<Rightarrow> call \<Rightarrow> bool" where
  "valid_call ts (MarkPageViewed tid page) =
     (case find (\<lambda>t. t_id t = tid) ts of
        None \<Rightarrow> False
      | Some t \<Rightarrow> 0 \<le> page \<and> page < int (length (images t)))"
| "valid_call ts (MarkTopicComplete tid) = (find (\<lambda>t. t_id t = tid) ts \<noteq> None)"

fun progress_trace :: "reader \<Rightarrow> call list \<Rightarrow> int list" where
  "progress_trace st [] = [weightedProgress st]"
| "progress_trace st (c # cs) = weightedProgress st # progress_trace (apply_call st c) cs"

text \<open>
  The invariant of the data model: the viewed pages of each topic lie in its index range.
\<close>

definition range_valid :: "reader \<Rightarrow> bool" where
  "range_valid st =
     list_all (\<lambda>t. case viewedPages st (t_id t) of None \<Rightarrow> True | Some s \<Rightarrow> s \<subseteq> all_pages t)
       (topics st)"

subsection \<open>Example states\<close>

text \<open>
  A course of one topic with 40 pages, 23 of them viewed: \<open>100 * 23 / 40\<close> is \<open>57.5\<close>.
\<close>

definition forty_pages :: reader where
  "forty_pages =
     initial\<lparr>topics := [\<lparr>t_id = ''t1'', t_title = ''Introduction'',
                            images = Array_from 40 (\<lambda>i. course_image (2 + i))\<rparr>],
             viewedPages := [''t1'' \<mapsto> {0..<23}]\<rparr>"

text \<open>The fallback course with the first three pages of its first topic viewed.\<close>

definition three_viewed :: reader where
  "three_viewed =
     initial\<lparr>topics := buildFallbackTopics, viewedPages := [''t1'' \<mapsto> {0, 1, 2}]\<rparr>"

text \<open>
  No network: every request fails and nothing is cached.
\<close>

definition no_json :: "string \<Rightarrow> js_error + 'a" where
  "no_json text = Inl SyntaxError"

definition offline :: env where
  "offline =
     \<lparr>courseId = Some ''c1'', get_course = Inl NetworkError, get_progress = Inl NetworkError,
      get_notes = Inl NetworkError, get_bookmark = Inl NetworkError,
      localStorage = Map.empty, JSON_parse_notes = no_json, JSON_parse_bookmark = no_json\<rparr>"

text \<open>The reader once the fallback course is loaded, nothing read yet.\<close>

definition fallback_loaded :: reader where
  "fallback_loaded = use_fallback ''c1'' initial"

text \<open>
  The text \<open>{"topicId":"t2","imageIndex":1}\<close>, as \<open>saveBookmark\<close> stores it, and
  \<open>JSON.parse\<close> on the texts the examples keep in the cache: that text, \<open>null\<close>, and
  texts that are not JSON.
\<close>

definition bookmark_text :: string where
  "bookmark_text =
     ''{'' @ [CHR 0x22] @ ''topicId'' @ [CHR 0x22] @ '':'' @ [CHR 0x22] @ ''t2'' @ [CHR 0x22] @
     '','' @ [CHR 0x22] @ ''imageIndex'' @ [CHR 0x22] @ '':1}''"

definition parse_example :: "string \<Rightarrow> js_error + bookmark option" where
  "parse_example text =
     (if text = bookmark_text then Inr (Some \<lparr>topicId = ''t2'', imageIndex = 1\<rparr>)
      else if text = ''null'' then Inr None
      else Inl SyntaxError)"

text \<open>The server answers with a bookmark on page index 99 of the second topic.\<close>

definition bookmark_99 :: env where
  "bookmark_99 = offline\<lparr>get_bookmark := Inr (Some \<lparr>topicId = ''t2'', imageIndex = 99\<rparr>)\<rparr>"

text \<open>The server answers \<open>null\<close> while the cache holds a bookmark.\<close>

definition remote_null :: env where
  "remote_null =
     offline\<lparr>get_bookmark := Inr None, localStorage := [''bookmark_c1'' \<mapsto> bookmark_text],
             JSON_parse_bookmark := parse_example\<rparr>"

text \<open>The server is down and the cache holds the bookmark.\<close>

definition remote_down :: env where
  "remote_down =
     offline\<lparr>localStorage := [''bookmark_c1'' \<mapsto> bookmark_text],
             JSON_parse_bookmark := parse_example\<rparr>"

text \<open>The server is down and the cache holds \<open>{\<close> under the bookmark's key.\<close>

definition broken_cache :: env where
  "broken_cache =
     offline\<lparr>localStorage := [''bookmark_c1'' \<mapsto> ''{''], JSON_parse_bookmark := parse_example\<rparr>"

text \<open>The server has no course, or a course without topics that the user has not bought.\<close>

definition no_course :: env where
  "no_course = offline\<lparr>get_course := Inr None\<rparr>"

definition empty_course :: env where
  "empty_course =
     offline\<lparr>get_course := Inr (Some \<lparr>c_id = ''c1'', c_title = ''Option Analysis'',
                 c_topics = Some [], price = Some 1499, userHasAccess = Some False\<rparr>)\<rparr>"

text \<open>The server is down and the cache holds \<open>{\<close> under the key of the notes.\<close>

definition broken_notes :: env where
  "broken_notes = offline\<lparr>localStorage := [''notes_c1'' \<mapsto> ''{'']\<rparr>"

text \<open>
  The fallback course open at the last page (index 16) of its first topic, and open at
  its last topic.
\<close>

definition at_last_page :: reader where
  "at_last_page = fallback_loaded\<lparr>currentPage := 16\<rparr>"

definition at_last_topic :: reader where
  "at_last_topic = fallback_loaded\<lparr>activeTopicIndex := 7\<rparr>"

text \<open>The server is down and the cache holds \<open>null\<close> under the bookmark's key.\<close>

definition null_cache :: env where
  "null_cache =
     offline\<lparr>localStorage := [''bookmark_c1'' \<mapsto> ''null''], JSON_parse_bookmark := parse_example\<rparr>"

section \<open>Properties\<close>

subsection \<open>Rounding to a double\<close>

lemma rne_bounds: "of_int (rne x) - 1 / 2 \<le> x \<and> x \<le> of_int (rne x) + 1 / 2"
  unfolding rne_def Let_def by (auto; linarith)

lemma rne_of_int: "rne (of_int n) = n"
  unfolding rne_def Let_def by simp

lemma rne_floor: "\<lfloor>x\<rfloor> \<le> rne x \<and> rne x \<le> \<lfloor>x\<rfloor> + 1"
  unfolding rne_def Let_def by simp

lemma rne_mono:
  assumes "x \<le> y"
  shows "rne x \<le> rne y"
proof (cases "\<lfloor>x\<rfloor> = \<lfloor>y\<rfloor>")
  case True
  with assms show ?thesis
    unfolding rne_def Let_def by auto
next
  case False
  with assms have "\<lfloor>x\<rfloor> + 1 \<le> \<lfloor>y\<rfloor>"
    using floor_mono [of x y] by linarith
  with rne_floor [of x] rne_floor [of y] show ?thesis
    by linarith
qed

lemma pow2_bitlen:
  assumes "0 < p"
  shows "(2::rat) powi (bitlen p - 1) \<le> of_int p \<and> of_int p < (2::rat) powi bitlen p"
proof -
  from assms have b: "1 \<le> bitlen p"
    by (auto simp: bitlen_alt_def)
  have "(2::int) ^ nat (bitlen p - 1) \<le> p" and "p < (2::int) ^ nat (bitlen p)"
    using bitlen_bounds [OF assms] by simp_all
  then have "rat_of_int (2 ^ nat (bitlen p - 1)) \<le> of_int p"
    and "rat_of_int p < of_int (2 ^ nat (bitlen p))"
    by (simp_all only: of_int_le_iff of_int_less_iff)
  with b show ?thesis
    by (simp add: power_int_def)
qed

lemma powi_step: "(2::rat) powi (k + 1) = 2 * 2 powi k"
  by (simp add: power_int_add)

lemma binade_sandwich:
  fixes p q :: int
  assumes p: "0 < p" and q: "0 < q"
  defines "k \<equiv> bitlen p - bitlen q"
  shows "(2::rat) powi (k - 1) < of_int p / of_int q \<and> of_int p / of_int q < (2::rat) powi (k + 1)"
proof -
  define A :: rat where "A = 2 powi bitlen p"
  define B :: rat where "B = 2 powi bitlen q"
  define P :: rat where "P = of_int p"
  define Q :: rat where "Q = of_int q"
  have pos: "0 < A" "0 < B" "0 < P" "0 < Q"
    using p q by (simp_all add: A_def B_def P_def Q_def)
  have hp: "2 powi bitlen p = 2 * (2::rat) powi (bitlen p - 1)"
    using powi_step [of "bitlen p - 1"] by simp
  have hq: "2 powi bitlen q = 2 * (2::rat) powi (bitlen q - 1)"
    using powi_step [of "bitlen q - 1"] by simp
  have PA: "P < A" "A \<le> 2 * P"
    using pow2_bitlen [OF p] hp by (simp_all add: A_def P_def)
  have QB: "Q < B" "B \<le> 2 * Q"
    using pow2_bitlen [OF q] hq by (simp_all add: B_def Q_def)
  have up: "P * B < 2 * A * Q"
  proof -
    have "P * B \<le> P * (2 * Q)"
      using QB pos by (intro mult_left_mono) simp_all
    also have "\<dots> < A * (2 * Q)"
      using PA pos by (intro mult_strict_right_mono) simp_all
    finally show ?thesis by (simp add: mult_ac)
  qed
  have lo: "A * Q < 2 * B * P"
  proof -
    have "A * Q \<le> (2 * P) * Q"
      using PA pos by (intro mult_right_mono) simp_all
    also have "\<dots> < (2 * P) * B"
      using QB pos by (intro mult_strict_left_mono) simp_all
    finally show ?thesis by (simp add: mult_ac)
  qed
  have k1: "(2::rat) powi (k + 1) = 2 * A / B"
    by (simp add: k_def A_def B_def power_int_diff power_int_add)
  have k2: "(2::rat) powi (k - 1) = A / (2 * B)"
    by (simp add: k_def A_def B_def power_int_diff)
  have "A / (2 * B) < P / Q"
    using lo pos by (simp add: field_simps)
  moreover have "P / Q < 2 * A / B"
    using up pos by (simp add: field_simps)
  ultimately show ?thesis
    by (simp add: k1 k2 P_def Q_def)
qed

lemma binade_bounds:
  assumes "0 < x"
  shows "2 powi binade x \<le> x \<and> x < 2 powi (binade x + 1)"
proof -
  obtain p q where pq: "quotient_of x = (p, q)"
    by (cases "quotient_of x")
  then have x: "x = of_int p / of_int q" and q: "0 < q"
    by (simp_all add: quotient_of_div quotient_of_denom_pos)
  with assms have p: "0 < p"
    by (simp add: zero_less_divide_iff)
  from binade_sandwich [OF p q] x
  have "2 powi (bitlen p - bitlen q - 1) < x" "x < 2 powi (bitlen p - bitlen q + 1)"
    by simp_all
  then show ?thesis
    by (auto simp: binade_def pq Let_def)
qed

lemma powi_mono2: "k \<le> l \<Longrightarrow> (2::rat) powi k \<le> 2 powi l"
  by (rule power_int_increasing) simp_all

lemma binade_unique:
  assumes "2 powi k \<le> x" "x < 2 powi (k + 1)"
  shows "binade x = k"
proof -
  have "0 < (2::rat) powi k" by simp
  with assms have x: "0 < x" by linarith
  note b = binade_bounds [OF x]
  have "\<not> binade x + 1 \<le> k"
  proof
    assume "binade x + 1 \<le> k"
    from powi_mono2 [OF this] b assms show False by linarith
  qed
  moreover have "\<not> k + 1 \<le> binade x"
  proof
    assume "k + 1 \<le> binade x"
    from powi_mono2 [OF this] b assms show False by linarith
  qed
  ultimately show ?thesis by linarith
qed

lemma binade_mono:
  assumes "0 < x" "x \<le> y"
  shows "binade x \<le> binade y"
proof (rule ccontr)
  assume "\<not> binade x \<le> binade y"
  then have "binade y + 1 \<le> binade x" by linarith
  from powi_mono2 [OF this] binade_bounds [of x] binade_bounds [of y] assms
  show False by linarith
qed


lemma fl_pos: "0 < x \<Longrightarrow> fl x = of_int (rne (x / ulp x)) * ulp x"
  by (simp add: fl_def)

lemma ulp_pos: "0 < ulp x"
  by (simp add: ulp_def)

lemma ulp_scaled:
  assumes "0 < x"
  shows "2 ^ 52 \<le> x / ulp x \<and> x / ulp x < 2 ^ 53"
proof -
  have e1: "(2::rat) powi binade x = 2 ^ 52 * ulp x"
    by (simp add: ulp_def power_int_diff)
  have e2: "(2::rat) powi (binade x + 1) = 2 ^ 53 * ulp x"
    by (simp add: ulp_def power_int_diff power_int_add)
  from binade_bounds [OF assms] e1 e2 ulp_pos [of x] show ?thesis
    by (simp add: pos_le_divide_eq pos_divide_less_eq)
qed

lemma rne_scaled:
  assumes "0 < x"
  shows "2 ^ 52 \<le> rne (x / ulp x) \<and> rne (x / ulp x) \<le> 2 ^ 53"
proof -
  have "rne (of_int (2 ^ 52)) \<le> rne (x / ulp x)"
    using ulp_scaled [OF assms] by (intro rne_mono) simp
  moreover have "rne (x / ulp x) \<le> rne (of_int (2 ^ 53))"
    using ulp_scaled [OF assms] by (intro rne_mono) simp
  ultimately show ?thesis
    by (simp only: rne_of_int) 
qed

lemma fl_binade:
  assumes "0 < x"
  shows "2 powi binade x \<le> fl x \<and> fl x \<le> 2 powi (binade x + 1)"
proof -
  have e1: "(2::rat) powi binade x = 2 ^ 52 * ulp x"
    by (simp add: ulp_def power_int_diff)
  have e2: "(2::rat) powi (binade x + 1) = 2 ^ 53 * ulp x"
    by (simp add: ulp_def power_int_diff power_int_add)
  from rne_scaled [OF assms]
  have "rat_of_int (2 ^ 52) \<le> of_int (rne (x / ulp x))" "rat_of_int (rne (x / ulp x)) \<le> of_int (2 ^ 53)"
    by (simp_all only: of_int_le_iff)
  then have "2 ^ 52 * ulp x \<le> of_int (rne (x / ulp x)) * ulp x"
    "of_int (rne (x / ulp x)) * ulp x \<le> 2 ^ 53 * ulp x"
    using ulp_pos [of x] by (simp_all add: mult_right_mono)
  then show ?thesis
    by (simp add: fl_pos [OF assms] e1 e2)
qed

lemma fl_nonneg: "0 \<le> fl x"
proof (cases "0 < x")
  case True
  from fl_binade [OF True] have "2 powi binade x \<le> fl x" ..
  moreover have "0 < (2::rat) powi binade x" by simp
  ultimately show ?thesis by linarith
next
  case False
  then show ?thesis by (simp add: fl_def)
qed

lemma fl_mono:
  assumes "x \<le> y"
  shows "fl x \<le> fl y"
proof (cases "0 < x")
  case False
  then have "fl x = 0" by (simp add: fl_def)
  then show ?thesis by (simp add: fl_nonneg)
next
  case True
  with assms have y: "0 < y" by linarith
  show ?thesis
  proof (cases "binade x = binade y")
    case same: True
    then have u: "ulp x = ulp y" by (simp add: ulp_def)
    have "x / ulp y \<le> y / ulp y"
      using assms ulp_pos [of y] by (simp add: divide_right_mono)
    then have "rne (x / ulp y) \<le> rne (y / ulp y)"
      by (rule rne_mono)
    then have "rat_of_int (rne (x / ulp y)) * ulp y \<le> of_int (rne (y / ulp y)) * ulp y"
      using ulp_pos [of y] by (simp add: mult_right_mono)
    then show ?thesis
      by (simp add: fl_pos True y u)
  next
    case False
    with binade_mono [OF True assms] have "binade x + 1 \<le> binade y" by linarith
    from powi_mono2 [OF this] fl_binade [OF True] fl_binade [OF y] show ?thesis
      by linarith
  qed
qed

lemma fl_error:
  assumes "0 < x"
  shows "\<bar>fl x - x\<bar> \<le> x / 2 ^ 53"
proof -
  define n where "n = rne (x / ulp x)"
  have u: "0 < ulp x" by (rule ulp_pos)
  from rne_bounds [of "x / ulp x"]
  have "\<bar>of_int n - x / ulp x\<bar> \<le> 1 / 2"
    unfolding n_def by linarith
  then have "\<bar>of_int n - x / ulp x\<bar> * ulp x \<le> 1 / 2 * ulp x"
    using u by (intro mult_right_mono) simp_all
  moreover have "\<bar>of_int n - x / ulp x\<bar> * ulp x = \<bar>of_int n * ulp x - x\<bar>"
  proof -
    have "of_int n * ulp x - x = (of_int n - x / ulp x) * ulp x"
      using u by (simp add: left_diff_distrib)
    then have "\<bar>of_int n * ulp x - x\<bar> = \<bar>of_int n - x / ulp x\<bar> * \<bar>ulp x\<bar>"
      by (simp only: abs_mult)
    with u show ?thesis by simp
  qed
  ultimately have a: "\<bar>fl x - x\<bar> \<le> ulp x / 2"
    by (simp add: fl_pos [OF assms] n_def)
  have "2 ^ 52 * ulp x \<le> x"
    using ulp_scaled [OF assms] u by (simp add: pos_le_divide_eq)
  then have "ulp x / 2 \<le> x / 2 ^ 53"
    by simp
  with a show ?thesis by linarith
qed

lemma Math_round_mono: "x \<le> y \<Longrightarrow> Math_round x \<le> Math_round y"
  unfolding Math_round_def by (intro floor_mono) simp

lemma percent_mono:
  assumes "v \<le> w"
  shows "percent v t \<le> percent w t"
proof (cases "t = 0")
  case True
  then show ?thesis by (simp add: percent_def)
next
  case False
  have "(of_nat v :: rat) / of_nat t \<le> of_nat w / of_nat t"
    using assms by (simp add: divide_right_mono)
  then have "fl (of_nat v / of_nat t) * 100 \<le> fl (of_nat w / of_nat t) * 100"
    by (simp add: fl_mono)
  then have "fl (fl (of_nat v / of_nat t) * 100) \<le> fl (fl (of_nat w / of_nat t) * 100)"
    by (rule fl_mono)
  with False show ?thesis
    by (simp add: percent_def js_div_def js_mul_def Math_round_mono)
qed

lemma fl_zero: "fl 0 = 0"
  by (simp add: fl_def)

lemma fl_gt0:
  assumes "0 < x"
  shows "0 < fl x"
proof -
  from fl_binade [OF assms] have "2 powi binade x \<le> fl x" ..
  moreover have "0 < (2::rat) powi binade x" by simp
  ultimately show ?thesis by linarith
qed

lemma double_percent_error:
  assumes x: "0 < x"
  shows "\<bar>fl (fl x * 100) - 100 * x\<bar> \<le> 300 * x / 2 ^ 53"
proof -
  define a where "a = fl x"
  define b where "b = fl (a * 100)"
  define e :: rat where "e = x / 2 ^ 53"
  have a: "0 < a" unfolding a_def by (rule fl_gt0 [OF x])
  have e: "0 < e" "e \<le> x" "300 * x / 2 ^ 53 = 300 * e"
    using x by (simp_all add: e_def)
  have ea: "\<bar>a - x\<bar> \<le> e"
    unfolding a_def e_def by (rule fl_error [OF x])
  from a have "0 < a * 100" by simp
  from fl_error [OF this] have eb: "\<bar>b - a * 100\<bar> \<le> a * 100 / 2 ^ 53"
    unfolding b_def .
  have a2: "a \<le> 2 * x"
    using ea e by linarith
  have "a * 100 / 2 ^ 53 \<le> (2 * x) * 100 / 2 ^ 53"
    using a2 by (intro divide_right_mono mult_right_mono) simp_all
  also have "\<dots> = 200 * e"
    by (simp add: e_def)
  finally have "\<bar>b - a * 100\<bar> \<le> 200 * e"
    using eb by linarith
  with ea have "\<bar>b - 100 * x\<bar> \<le> 300 * e"
    by linarith
  then show ?thesis
    by (simp only: e a_def b_def)
qed

lemma Math_round_0: "Math_round 0 = 0"
  unfolding Math_round_def by (rule floor_unique) simp_all

lemma percent_nearest:
  assumes t: "0 < t" and v: "v < 2 ^ 43"
  shows "\<bar>2 * int t * percent v t - 200 * int v\<bar> \<le> int t"
proof (cases "v = 0")
  case True
  with t show ?thesis
    by (simp add: percent_def js_div_def js_mul_def fl_zero Math_round_0)
next
  case False
  define T :: rat where "T = of_nat t"
  define V :: rat where "V = of_nat v"
  define b where "b = fl (fl (V / T) * 100)"
  define n where "n = percent v t"
  have T: "0 < T" and V: "0 < V" "V < 2 ^ 43"
    using t v False by (simp_all add: T_def V_def)
  have n: "n = \<lfloor>b + 1 / 2\<rfloor>"
    using t by (simp add: n_def percent_def js_div_def js_mul_def Math_round_def b_def T_def V_def)
  have x: "0 < V / T" using T V by simp
  from double_percent_error [OF x]
  have "\<bar>b - 100 * (V / T)\<bar> \<le> 300 * (V / T) / 2 ^ 53"
    by (simp add: b_def)
  then have "\<bar>b - 100 * (V / T)\<bar> * (2 * T) \<le> 300 * (V / T) / 2 ^ 53 * (2 * T)"
    using T by (intro mult_right_mono) simp_all
  moreover have "\<bar>b - 100 * (V / T)\<bar> * (2 * T) = \<bar>2 * T * b - 200 * V\<bar>"
  proof -
    have "2 * T * b - 200 * V = (b - 100 * (V / T)) * (2 * T)"
      using T by (simp add: field_simps)
    then have "\<bar>2 * T * b - 200 * V\<bar> = \<bar>b - 100 * (V / T)\<bar> * \<bar>2 * T\<bar>"
      by (simp only: abs_mult)
    with T show ?thesis by simp
  qed
  moreover have "300 * (V / T) / 2 ^ 53 * (2 * T) = 600 * V / 2 ^ 53"
    using T by simp
  ultimately have B: "\<bar>2 * T * b - 200 * V\<bar> \<le> 600 * V / 2 ^ 53"
    by simp
  have small: "600 * V / 2 ^ 53 < 1"
    using V by simp
  have n1: "of_int n \<le> b + 1 / 2" and n2: "b + 1 / 2 < of_int n + 1"
    unfolding n by linarith+
  define X where "X = 2 * T * b"
  define Y where "Y = 2 * T * of_int n"
  define d where "d = 600 * V / 2 ^ 53"
  have "2 * T * of_int n \<le> 2 * T * (b + 1 / 2)"
    using n1 T by (intro mult_left_mono) simp_all
  then have m1: "Y \<le> X + T"
    by (simp add: X_def Y_def algebra_simps)
  have "2 * T * (b + 1 / 2) < 2 * T * (of_int n + 1)"
    using n2 T by (intro mult_strict_left_mono) simp_all
  then have m2: "X + T < Y + 2 * T"
    by (simp add: X_def Y_def algebra_simps)
  have B': "\<bar>X - 200 * V\<bar> \<le> d" and d: "d < 1"
    using B small by (simp_all only: X_def d_def)
  from m1 m2 B' d
  have "Y - 200 * V < T + 1" and "- T - 1 < Y - 200 * V"
    by linarith+
  then have up: "2 * T * of_int n - 200 * V < T + 1"
    and lo: "- T - 1 < 2 * T * of_int n - 200 * V"
    by (simp_all only: Y_def)
  have "rat_of_int (2 * int t * n - 200 * int v) < of_int (int t + 1)"
    using up by (simp add: T_def V_def)
  then have i1: "2 * int t * n - 200 * int v < int t + 1"
    by (simp only: of_int_less_iff)
  have "rat_of_int (- int t - 1) < of_int (2 * int t * n - 200 * int v)"
    using lo by (simp add: T_def V_def)
  then have i2: "- int t - 1 < 2 * int t * n - 200 * int v"
    by (simp only: of_int_less_iff)
  from i1 i2 show ?thesis
    unfolding n_def by linarith
qed

lemma percent_no_tie:
  assumes t: "0 < t" and v: "v < 2 ^ 43"
    and tie: "(200 * int v + int t) mod (2 * int t) \<noteq> 0"
  shows "percent v t = spec_round_percent v t"
proof -
  define A where "A = 200 * int v + int t"
  define D where "D = 2 * int t"
  define n where "n = percent v t"
  define m where "m = A div D"
  have D: "0 < D" using t by (simp add: D_def)
  have A: "A = m * D + A mod D"
    by (simp add: m_def)
  have "A mod D \<noteq> 0"
    unfolding A_def D_def by (rule tie)
  moreover have "0 \<le> A mod D" "A mod D < D"
    using D by (rule pos_mod_sign, rule pos_mod_bound)
  ultimately have r: "0 < A mod D" "A mod D < D"
    by linarith+
  from percent_nearest [OF t v]
  have "n * D \<le> A" "A \<le> (n + 1) * D"
    unfolding n_def A_def D_def by (simp_all add: algebra_simps abs_le_iff)
  with A r have "n * D < (m + 1) * D" "m * D < (n + 1) * D"
    by (simp_all add: algebra_simps)
  with D have "n < m + 1" "m < n + 1"
    by (simp_all only: mult_less_cancel_right_pos)
  then show ?thesis
    by (simp add: n_def m_def A_def D_def spec_round_percent_def)
qed


subsection \<open>Weighted progress\<close>

lemma foldl_count_topic:
  "foldl (count_topic vp) (a, b) ts =
     (a + (\<Sum>t\<leftarrow>ts. pageCount t), b + (\<Sum>t\<leftarrow>ts. viewed vp t))"
  by (induction ts arbitrary: a b) (simp_all add: count_topic_def)

lemma page_counts_sums: "page_counts st = (total_pages st, viewed_pages_count st)"
  by (simp add: page_counts_def total_pages_def viewed_pages_count_def foldl_count_topic)

lemma weightedProgress_percent:
  "weightedProgress st = percent (viewed_pages_count st) (total_pages st)"
  by (simp add: weightedProgress_def page_counts_sums)

text \<open>
  C1, as amended. \<open>weightedProgress\<close> is computed over all topics of the course. With no
  pages at all it is 0. Otherwise it is an integer nearest to
  \<open>100 * viewed / total\<close> (for fewer than \<open>2 ^ 43\<close> viewed pages), and it is the rounded value
  \<open>round(100 * viewed / total)\<close> of the specification whenever \<open>100 * viewed / total\<close> is
  not exactly halfway between two integers.
\<close>

theorem weightedProgress_nearest:
  "(total_pages st = 0 \<longrightarrow> weightedProgress st = 0) \<and>
   (0 < total_pages st \<and> viewed_pages_count st < 2 ^ 43 \<longrightarrow>
      \<bar>2 * int (total_pages st) * weightedProgress st - 200 * int (viewed_pages_count st)\<bar>
        \<le> int (total_pages st) \<and>
      ((200 * int (viewed_pages_count st) + int (total_pages st)) mod (2 * int (total_pages st)) \<noteq> 0
        \<longrightarrow> weightedProgress st = spec_round_percent (viewed_pages_count st) (total_pages st)))"
  by (simp add: weightedProgress_percent percent_nearest percent_no_tie)
    (simp add: percent_def)

lemma total_pages_fallback: "(\<Sum>t\<leftarrow>buildFallbackTopics. pageCount t) = 57"
  by (simp add: buildFallbackTopics_def pageCount_def Array_from_def)

lemma three_viewed_counts:
  "total_pages three_viewed = 57" "viewed_pages_count three_viewed = 3"
  by (simp_all add: total_pages_def viewed_pages_count_def three_viewed_def total_pages_fallback
      initial_def)
    (simp add: buildFallbackTopics_def viewed_def)

theorem weightedProgress_nearest_witness:
  "total_pages initial = 0 \<and> weightedProgress initial = 0 \<and>
   0 < total_pages three_viewed \<and> viewed_pages_count three_viewed < 2 ^ 43 \<and>
   \<bar>2 * 57 * weightedProgress three_viewed - 200 * 3\<bar> \<le> 57 \<and>
   (200 * 3 + 57) mod (2 * 57) \<noteq> (0::int) \<and>
   weightedProgress three_viewed = spec_round_percent 3 57"
proof -
  have "total_pages initial = 0"
    by (simp add: total_pages_def initial_def)
  with weightedProgress_nearest [of initial] have "weightedProgress initial = 0"
    by simp
  moreover note \<open>total_pages initial = 0\<close>
  moreover from weightedProgress_nearest [of three_viewed]
  have "\<bar>2 * 57 * weightedProgress three_viewed - 200 * 3\<bar> \<le> 57 \<and>
    weightedProgress three_viewed = spec_round_percent 3 57"
    by (simp add: three_viewed_counts spec_round_percent_def)
  ultimately show ?thesis
    by (simp add: three_viewed_counts spec_round_percent_def)
qed

text \<open>
  C1 as stated fails where the quotient is halfway: \<open>23 / 40\<close> is not a double, the double
  nearest to it lies below it, and the product with 100 rounds to the double just below
  \<open>57.5\<close>, which \<open>Math.round\<close> takes down to 57. The specification's rounding gives 58.
\<close>

lemma forty_pages_counts:
  "total_pages forty_pages = 40" "viewed_pages_count forty_pages = 23"
  by (simp_all add: total_pages_def viewed_pages_count_def forty_pages_def initial_def
      pageCount_def viewed_def Array_from_def)

lemma percent_23_40: "percent 23 40 = 57"
  unfolding percent_def js_div_def js_mul_def
  apply simp
  apply code_simp
  done

theorem weightedProgress_round_counterexample:
  "weightedProgress forty_pages = 57 \<and>
   spec_round_percent (viewed_pages_count forty_pages) (total_pages forty_pages) = 58"
  by (simp add: weightedProgress_percent forty_pages_counts percent_23_40 spec_round_percent_def)

subsection \<open>Loading the course\<close>

lemma topics_notes_from_cache [simp]: "topics (fst (notes_from_cache e st)) = topics st"
  by (simp add: notes_from_cache_def split: option.splits sum.splits)

lemma course_notes_from_cache [simp]: "course (fst (notes_from_cache e st)) = course st"
  by (simp add: notes_from_cache_def split: option.splits sum.splits)

lemma topics_network_error_fallback [simp]:
  "topics (fst (network_error_fallback e cid st)) = buildFallbackTopics"
  by (simp add: network_error_fallback_def use_fallback_def)

lemma course_network_error_fallback [simp]:
  "course (fst (network_error_fallback e cid st)) = Some (fallback_course cid)"
  by (simp add: network_error_fallback_def use_fallback_def)

lemma fallback_ids_titles:
  "map (\<lambda>t. (t_id t, t_title t, length (images t))) buildFallbackTopics =
     [(''t1'', ''Introduction'', 17), (''t2'', ''Understanding Doji Candles'', 4),
      (''t3'', ''The '' @ [CHR 0x22] @ ''Dicy Reversal'' @ [CHR 0x22] @ '' Setup'', 7),
      (''t4'', ''Entry & Exit Rules'', 5), (''t5'', ''Risk Management'', 13),
      (''t6'', ''Practical Examples'', 5), (''t7'', ''Final Thoughts'', 4),
      (''t8'', ''Author'' @ [CHR 0x27] @ ''s Message'', 2)]"
  by (simp add: buildFallbackTopics_def Array_from_def)

lemma Array_from_shift: "Array_from n (\<lambda>i. f (a + i)) = map f [a..<a + n]"
proof -
  have "[a..<a + n] = map (\<lambda>i. i + a) [0..<n]"
    by (simp add: map_add_upt add.commute)
  then show ?thesis
    by (simp add: Array_from_def o_def add.commute)
qed

lemma fallback_images:
  "map images buildFallbackTopics =
     [map course_image [2..<19], map course_image [19..<23], map course_image [23..<30],
      map course_image [30..<35], map course_image [35..<48], map course_image [48..<53],
      map course_image [53..<57], map course_image [57..<59]]"
  by (simp only: buildFallbackTopics_def list.map Topic.select_convs Array_from_shift) simp


lemma course_image_2: "course_image 2 = ''/course/2.jpeg''" 
  by (simp add: course_image_def string_of_nat.simps)

lemma course_image_18: "course_image 18 = ''/course/18.jpeg''"
  by (simp add: course_image_def string_of_nat.simps)

lemma topics_use_fallback [simp]: "topics (use_fallback cid st) = buildFallbackTopics"
  by (simp add: use_fallback_def)

lemma course_use_fallback [simp]: "course (use_fallback cid st) = Some (fallback_course cid)"
  by (simp add: use_fallback_def)

lemma loadCourse_no_reply:
  assumes "\<not> falsy (courseId e)" and "get_course e = Inl err"
  shows "loadCourse e st = network_error_fallback e (template (courseId e)) st"
  using assms by (simp add: loadCourse_def)

lemma loadCourse_no_course:
  assumes "\<not> falsy (courseId e)" and "get_course e = Inr None"
  shows "loadCourse e st = (use_fallback (template (courseId e)) st, None)"
  using assms by (simp add: loadCourse_def)

lemma loadCourse_no_topics:
  assumes "\<not> falsy (courseId e)" and "get_course e = Inr (Some c)"
    and "c_topics c = None \<or> c_topics c = Some []"
  shows "topics (fst (loadCourse e st)) = buildFallbackTopics"
proof -
  define c' where "c' = c\<lparr>c_topics := Some buildFallbackTopics\<rparr>"
  define st2 where "st2 =
    (case get_progress e of
       Inr pr \<Rightarrow> st\<lparr>course := Some c', topics := buildFallbackTopics,
                     progress := (case pr of None \<Rightarrow> Map.empty | Some m \<Rightarrow> m)\<rparr>
     | Inl err \<Rightarrow> st\<lparr>course := Some c', topics := buildFallbackTopics,
                      progress := progress_of_completed (completedTopics st) buildFallbackTopics\<rparr>)"
  have t2: "topics st2 = buildFallbackTopics"
    by (simp add: st2_def split: sum.splits)
  have "loadCourse e st =
    (case get_notes e of
       Inr n \<Rightarrow> (st2\<lparr>page_notes := (case n of None \<Rightarrow> Map.empty | Some m \<Rightarrow> m)\<rparr>, None)
     | Inl err \<Rightarrow>
         (case notes_from_cache e st2 of
            (st3, None) \<Rightarrow> (st3, None)
          | (st3, Some thrown) \<Rightarrow> network_error_fallback e (template (courseId e)) st3))"
    using assms by (auto simp add: loadCourse_def st2_def c'_def split: sum.splits)
  moreover have "topics s = buildFallbackTopics" if "notes_from_cache e st2 = (s, r)" for s r
    using topics_notes_from_cache [of e st2] that by (simp add: t2)
  ultimately show ?thesis
    by (auto simp add: t2 split: sum.splits prod.splits option.splits)
qed


text \<open>
  C2. The fallback structure has eight topics, \<open>t1\<close> to \<open>t8\<close>, with 17, 4, 7, 5, 13, 5, 4
  and 2 pages over the images 2 to 18, 19 to 22, 23 to 29, 30 to 34, 35 to 47, 48 to 52,
  53 to 56 and 57 to 58. Whenever the course id is there and the request for the course
  fails, returns no course, or returns a course without topics, \<open>loadCourse\<close> leaves
  exactly this list in \<open>topics\<close>, whatever the state before and whatever else the
  environment holds: every call gives the same ids, titles and page ranges.
\<close>

theorem loadCourse_fallback:
  "map (\<lambda>t. (t_id t, t_title t, pageCount t)) buildFallbackTopics =
     [(''t1'', ''Introduction'', 17), (''t2'', ''Understanding Doji Candles'', 4),
      (''t3'', ''The '' @ [CHR 0x22] @ ''Dicy Reversal'' @ [CHR 0x22] @ '' Setup'', 7),
      (''t4'', ''Entry & Exit Rules'', 5), (''t5'', ''Risk Management'', 13),
      (''t6'', ''Practical Examples'', 5), (''t7'', ''Final Thoughts'', 4),
      (''t8'', ''Author'' @ [CHR 0x27] @ ''s Message'', 2)] \<and>
   map images buildFallbackTopics =
     [map course_image [2..<19], map course_image [19..<23], map course_image [23..<30],
      map course_image [30..<35], map course_image [35..<48], map course_image [48..<53],
      map course_image [53..<57], map course_image [57..<59]] \<and>
   course_image 2 = ''/course/2.jpeg'' \<and> course_image 18 = ''/course/18.jpeg'' \<and>
   (\<not> falsy (courseId e) \<and>
    ((\<exists>err. get_course e = Inl err) \<or> get_course e = Inr None \<or>
     (\<exists>c. get_course e = Inr (Some c) \<and> (c_topics c = None \<or> c_topics c = Some [])))
    \<longrightarrow> topics (fst (loadCourse e st)) = buildFallbackTopics)"
proof -
  have "topics (fst (loadCourse e st)) = buildFallbackTopics"
    if "\<not> falsy (courseId e)"
      and "(\<exists>err. get_course e = Inl err) \<or> get_course e = Inr None \<or>
        (\<exists>c. get_course e = Inr (Some c) \<and> (c_topics c = None \<or> c_topics c = Some []))"
    using that
    by (auto simp add: loadCourse_no_reply loadCourse_no_course loadCourse_no_topics)
  then show ?thesis
    using fallback_ids_titles fallback_images course_image_2 course_image_18
    by (simp add: pageCount_def)
qed

theorem loadCourse_fallback_witness:
  "\<not> falsy (courseId offline) \<and> get_course offline = Inl NetworkError \<and>
   topics (fst (loadCourse offline initial)) = buildFallbackTopics \<and>
   \<not> falsy (courseId no_course) \<and> get_course no_course = Inr None \<and>
   topics (fst (loadCourse no_course initial)) = buildFallbackTopics \<and>
   \<not> falsy (courseId empty_course) \<and>
   topics (fst (loadCourse empty_course at_last_topic)) = buildFallbackTopics"
  using loadCourse_fallback [of offline initial] loadCourse_fallback [of no_course initial]
    loadCourse_fallback [of empty_course at_last_topic]
  by (simp add: offline_def no_course_def empty_course_def falsy_def)

text \<open>
  C10. When the request for the course fails or returns no course, the course that
  \<open>loadCourse\<close> sets is the fallback course, whose \<open>userHasAccess\<close> is \<open>true\<close>, so
  \<open>isLocked\<close> is false and the locked overlay is not shown.
\<close>

theorem fallback_course_unlocked:
  "\<not> falsy (courseId e) \<and> ((\<exists>err. get_course e = Inl err) \<or> get_course e = Inr None) \<longrightarrow>
   course (fst (loadCourse e st)) = Some (fallback_course (template (courseId e))) \<and>
   userHasAccess (fallback_course (template (courseId e))) = Some True \<and>
   \<not> isLocked (fst (loadCourse e st))"
  by (auto simp add: loadCourse_no_reply loadCourse_no_course isLocked_def fallback_course_def)

theorem fallback_course_unlocked_witness:
  "\<not> falsy (courseId offline) \<and> get_course offline = Inl NetworkError \<and>
   course (fst (loadCourse offline initial)) = Some (fallback_course ''c1'') \<and>
   userHasAccess (fallback_course ''c1'') = Some True \<and>
   \<not> isLocked (fst (loadCourse offline initial)) \<and>
   get_course no_course = Inr None \<and> \<not> isLocked (fst (loadCourse no_course initial))"
  using fallback_course_unlocked [of offline initial] fallback_course_unlocked [of no_course initial]
  by (simp add: offline_def no_course_def falsy_def template_def)

subsection \<open>Viewed pages\<close>

text \<open>
  C3. Marking a page viewed twice in a row gives the same \<open>viewedPages\<close> as marking it
  once, for the updater on any map, topic id and page, and for the effect on any state.
\<close>

theorem markPageViewed_idempotent:
  "markPageViewed tid page (markPageViewed tid page vp) = markPageViewed tid page vp \<and>
   viewed_page_effect (viewed_page_effect st) = viewed_page_effect st"
proof -
  have a: "markPageViewed tid page (markPageViewed tid page vp) = markPageViewed tid page vp"
    for tid page vp
    by (simp add: markPageViewed_def)
  have "activeTopic (st\<lparr>viewedPages := vp\<rparr>) = activeTopic st" for vp
    by (simp add: activeTopic_def)
  then have "viewed_page_effect (viewed_page_effect st) = viewed_page_effect st"
    by (simp add: viewed_page_effect_def a split: option.splits)
  with a show ?thesis by simp
qed


subsection \<open>Completing a topic\<close>

lemma mtc_completed:
  "completedTopics (markTopicComplete st tid) = (completedTopics st)(tid \<mapsto> True)"
  by (simp add: markTopicComplete_def Let_def split: option.splits)

lemma mtc_progress:
  "progress (markTopicComplete st tid) = (progress st)(tid \<mapsto> 100)"
  by (simp add: markTopicComplete_def Let_def split: option.splits)

lemma mtc_topics: "topics (markTopicComplete st tid) = topics st"
  by (simp add: markTopicComplete_def Let_def split: option.splits)

lemma mtc_viewedPages:
  "viewedPages (markTopicComplete st tid) =
     (case find (\<lambda>t. t_id t = tid) (topics st) of
        None \<Rightarrow> viewedPages st
      | Some t \<Rightarrow> (viewedPages st)(tid \<mapsto> all_pages t))"
  by (simp add: markTopicComplete_def Let_def split: option.splits)

lemma mtc_activeTopicIndex:
  "activeTopicIndex (markTopicComplete st tid) =
     (if activeTopicIndex st + 1 < length (topics st) then activeTopicIndex st + 1
      else activeTopicIndex st)"
  by (simp add: markTopicComplete_def Let_def split: option.splits)

lemma mtc_currentPage:
  "currentPage (markTopicComplete st tid) =
     (if activeTopicIndex st + 1 < length (topics st) then 0 else currentPage st)"
  by (simp add: markTopicComplete_def Let_def split: option.splits)

lemma mtc_toasts:
  "toasts (markTopicComplete st tid) =
     toasts st @
     [Topic_Completed (case find (\<lambda>t. t_id t = tid) (topics st) of
                         None \<Rightarrow> ''Topic'' | Some t \<Rightarrow> t_title t)] @
     (if activeTopicIndex st + 1 < length (topics st) then [] else [Course_Completed])"
  by (simp add: markTopicComplete_def Let_def split: option.splits)

lemma card_all_pages: "card (all_pages t) = pageCount t"
  by (simp add: all_pages_def pageCount_def)

lemma find_t_id: "find (\<lambda>x. t_id x = tid) ts = Some t \<Longrightarrow> t_id t = tid \<and> t \<in> set ts"
  by (auto simp add: find_Some_iff)

lemma fallback_loaded_fields:
  "topics fallback_loaded = buildFallbackTopics" "activeTopicIndex fallback_loaded = 0"
  "currentPage fallback_loaded = 0" "toasts fallback_loaded = []"
  "viewedPages fallback_loaded = Map.empty"
  by (simp_all add: fallback_loaded_def use_fallback_def initial_def)

text \<open>
  C5. For a topic id that names the topic \<open>t\<close> of the loaded course, after
  \<open>markTopicComplete\<close>: the topic is recorded complete; its viewed pages are the whole
  index range from 0 up to its page count, so as many as its pages; when a topic follows
  the active one the active index moves on by one and the page is 0, with no course
  completion signalled; when none follows, index and page stay and the
  \<open>Course Completed\<close> toast is raised. The function is total: it returns a state.
\<close>

theorem markTopicComplete_effect:
  "find (\<lambda>x. t_id x = tid) (topics st) = Some t \<longrightarrow>
   completedTopics (markTopicComplete st tid) tid = Some True \<and>
   viewedPages (markTopicComplete st tid) tid = Some {0..<int (pageCount t)} \<and>
   viewed (viewedPages (markTopicComplete st tid)) t = pageCount t \<and>
   topics (markTopicComplete st tid) = topics st \<and>
   (activeTopicIndex st + 1 < length (topics st) \<longrightarrow>
      activeTopicIndex (markTopicComplete st tid) = activeTopicIndex st + 1 \<and>
      currentPage (markTopicComplete st tid) = 0 \<and>
      toasts (markTopicComplete st tid) = toasts st @ [Topic_Completed (t_title t)]) \<and>
   (\<not> activeTopicIndex st + 1 < length (topics st) \<longrightarrow>
      activeTopicIndex (markTopicComplete st tid) = activeTopicIndex st \<and>
      currentPage (markTopicComplete st tid) = currentPage st \<and>
      toasts (markTopicComplete st tid) =
        toasts st @ [Topic_Completed (t_title t), Course_Completed])"
proof
  assume f: "find (\<lambda>x. t_id x = tid) (topics st) = Some t"
  from find_t_id [OF f] have t: "t_id t = tid" ..
  have "viewed ((viewedPages st)(tid \<mapsto> all_pages t)) t = pageCount t"
    by (simp add: viewed_def t card_all_pages)
  then show "completedTopics (markTopicComplete st tid) tid = Some True \<and>
   viewedPages (markTopicComplete st tid) tid = Some {0..<int (pageCount t)} \<and>
   viewed (viewedPages (markTopicComplete st tid)) t = pageCount t \<and>
   topics (markTopicComplete st tid) = topics st \<and>
   (activeTopicIndex st + 1 < length (topics st) \<longrightarrow>
      activeTopicIndex (markTopicComplete st tid) = activeTopicIndex st + 1 \<and>
      currentPage (markTopicComplete st tid) = 0 \<and>
      toasts (markTopicComplete st tid) = toasts st @ [Topic_Completed (t_title t)]) \<and>
   (\<not> activeTopicIndex st + 1 < length (topics st) \<longrightarrow>
      activeTopicIndex (markTopicComplete st tid) = activeTopicIndex st \<and>
      currentPage (markTopicComplete st tid) = currentPage st \<and>
      toasts (markTopicComplete st tid) =
        toasts st @ [Topic_Completed (t_title t), Course_Completed])"
    by (simp add: mtc_completed mtc_viewedPages mtc_topics mtc_activeTopicIndex mtc_currentPage
        mtc_toasts f all_pages_def pageCount_def)
qed

lemma find_t1:
  "find (\<lambda>x. t_id x = ''t1'') buildFallbackTopics = Some (hd buildFallbackTopics)"
  by (simp add: buildFallbackTopics_def)

lemma find_t8:
  "find (\<lambda>x. t_id x = ''t8'') buildFallbackTopics = Some (last buildFallbackTopics)"
  by (simp add: buildFallbackTopics_def)

theorem markTopicComplete_effect_witness:
  "find (\<lambda>x. t_id x = ''t1'') (topics fallback_loaded) = Some (hd buildFallbackTopics) \<and>
   activeTopicIndex fallback_loaded + 1 < length (topics fallback_loaded) \<and>
   completedTopics (markTopicComplete fallback_loaded ''t1'') ''t1'' = Some True \<and>
   viewedPages (markTopicComplete fallback_loaded ''t1'') ''t1'' = Some {0..<17} \<and>
   activeTopicIndex (markTopicComplete fallback_loaded ''t1'') = 1 \<and>
   currentPage (markTopicComplete fallback_loaded ''t1'') = 0 \<and>
   find (\<lambda>x. t_id x = ''t8'') (topics at_last_topic) = Some (last buildFallbackTopics) \<and>
   \<not> activeTopicIndex at_last_topic + 1 < length (topics at_last_topic) \<and>
   viewedPages (markTopicComplete at_last_topic ''t8'') ''t8'' = Some {0..<2} \<and>
   activeTopicIndex (markTopicComplete at_last_topic ''t8'') = 7 \<and>
   toasts (markTopicComplete at_last_topic ''t8'') =
     [Topic_Completed (''Author'' @ [CHR 0x27] @ ''s Message''), Course_Completed]"
proof -
  have l: "length buildFallbackTopics = 8"
    "pageCount (hd buildFallbackTopics) = 17" "pageCount (last buildFallbackTopics) = 2"
    "t_title (last buildFallbackTopics) = ''Author'' @ [CHR 0x27] @ ''s Message''"
    by (simp_all add: buildFallbackTopics_def pageCount_def Array_from_def)
  have a: "topics at_last_topic = buildFallbackTopics" "activeTopicIndex at_last_topic = 7"
    "toasts at_last_topic = []"
    by (simp_all add: at_last_topic_def fallback_loaded_fields)
  from markTopicComplete_effect [of "''t1''" fallback_loaded "hd buildFallbackTopics"]
    markTopicComplete_effect [of "''t8''" at_last_topic "last buildFallbackTopics"]
  show ?thesis
    by (simp add: fallback_loaded_fields a l find_t1 find_t8)
qed


text \<open>
  C6. When the current page is the last page index of the active topic and the topic's
  recorded progress is below 100, the effect records the topic complete at 100, fills its
  viewed pages with the whole index range, the same map that \<open>markTopicComplete\<close> leaves,
  and changes neither the active topic index nor the current page.
\<close>

theorem auto_complete_no_advance:
  "activeTopic st = Some t \<and> currentPage st = int (pageCount t) - 1 \<and>
   progress_or_0 st (t_id t) < 100 \<longrightarrow>
   completedTopics (auto_complete_effect st) (t_id t) = Some True \<and>
   progress (auto_complete_effect st) (t_id t) = Some 100 \<and>
   viewedPages (auto_complete_effect st) = (viewedPages st)(t_id t \<mapsto> {0..<int (pageCount t)}) \<and>
   (find (\<lambda>x. t_id x = t_id t) (topics st) = Some t \<longrightarrow>
      viewedPages (auto_complete_effect st) = viewedPages (markTopicComplete st (t_id t))) \<and>
   activeTopicIndex (auto_complete_effect st) = activeTopicIndex st \<and>
   currentPage (auto_complete_effect st) = currentPage st \<and>
   topics (auto_complete_effect st) = topics st"
  by (simp add: auto_complete_effect_def mtc_viewedPages Let_def all_pages_def pageCount_def)

lemma at_last_page_fields:
  "topics at_last_page = buildFallbackTopics" "activeTopicIndex at_last_page = 0"
  "currentPage at_last_page = 16" "progress_or_0 at_last_page ''t1'' = 0"
  "viewedPages at_last_page = Map.empty"
  by (simp_all add: at_last_page_def fallback_loaded_def use_fallback_def initial_def
      progress_or_0_def progress_of_completed_def buildFallbackTopics_def)

theorem auto_complete_no_advance_witness:
  "activeTopic at_last_page = Some (hd buildFallbackTopics) \<and>
   currentPage at_last_page = int (pageCount (hd buildFallbackTopics)) - 1 \<and>
   progress_or_0 at_last_page (t_id (hd buildFallbackTopics)) < 100 \<and>
   completedTopics (auto_complete_effect at_last_page) ''t1'' = Some True \<and>
   viewedPages (auto_complete_effect at_last_page) = [''t1'' \<mapsto> {0..<17}] \<and>
   viewedPages (auto_complete_effect at_last_page) =
     viewedPages (markTopicComplete at_last_page ''t1'') \<and>
   activeTopicIndex (auto_complete_effect at_last_page) = 0 \<and>
   currentPage (auto_complete_effect at_last_page) = 16 \<and>
   activeTopicIndex (markTopicComplete at_last_page ''t1'') = 1"
proof -
  have h: "t_id (hd buildFallbackTopics) = ''t1''" "pageCount (hd buildFallbackTopics) = 17"
    "length buildFallbackTopics = 8"
    by (simp_all add: buildFallbackTopics_def pageCount_def Array_from_def)
  have ap: "all_pages (hd buildFallbackTopics) = {0..<17}"
    by (simp add: all_pages_def buildFallbackTopics_def Array_from_def)
  have a: "activeTopic at_last_page = Some (hd buildFallbackTopics)"
    by (simp add: activeTopic_def at_last_page_fields) (simp add: buildFallbackTopics_def)
  have "activeTopicIndex (markTopicComplete at_last_page ''t1'') = 1"
    by (simp add: mtc_activeTopicIndex at_last_page_fields h)
  with auto_complete_no_advance [of at_last_page "hd buildFallbackTopics"]
  show ?thesis
    by (simp add: a at_last_page_fields h find_t1 mtc_viewedPages ap)
qed


text \<open>
  The scenario of a fresh course without network: the fallback topics are loaded,
  progress starts at 0, and reaching the last page of the first topic completes it,
  which brings the progress to \<open>round(100 * 17 / 57)\<close> with the first topic still active.
\<close>

lemma percent_17_57: "percent 17 57 = 30"
  unfolding percent_def js_div_def js_mul_def
  apply simp
  apply code_simp
  done

lemma auto_complete_at_last_page:
  "viewedPages (auto_complete_effect at_last_page) = [''t1'' \<mapsto> {0..<17}]"
  "topics (auto_complete_effect at_last_page) = buildFallbackTopics"
  "activeTopicIndex (auto_complete_effect at_last_page) = 0"
  "currentPage (auto_complete_effect at_last_page) = 16"
proof -
  have a: "activeTopic at_last_page = Some (hd buildFallbackTopics)"
    by (simp add: activeTopic_def at_last_page_fields) (simp add: buildFallbackTopics_def)
  have h: "t_id (hd buildFallbackTopics) = ''t1''" "length (images (hd buildFallbackTopics)) = 17"
    "all_pages (hd buildFallbackTopics) = {0..<17}"
    by (simp_all add: buildFallbackTopics_def all_pages_def Array_from_def)
  show "viewedPages (auto_complete_effect at_last_page) = [''t1'' \<mapsto> {0..<17}]"
    "topics (auto_complete_effect at_last_page) = buildFallbackTopics"
    "activeTopicIndex (auto_complete_effect at_last_page) = 0"
    "currentPage (auto_complete_effect at_last_page) = 16"
    by (simp_all add: auto_complete_effect_def a h at_last_page_fields)
qed

lemma fresh_course_scenario:
  "topics (fst (loadCourse offline initial)) = buildFallbackTopics \<and>
   weightedProgress fallback_loaded = 0 \<and>
   weightedProgress (auto_complete_effect at_last_page) = 30 \<and>
   spec_round_percent 17 57 = 30 \<and>
   activeTopicIndex (auto_complete_effect at_last_page) = 0"
proof -
  have "topics (fst (loadCourse offline initial)) = buildFallbackTopics"
  proof -
    have "\<not> falsy (courseId offline)" "get_course offline = Inl NetworkError"
      by (simp_all add: offline_def falsy_def)
    then show ?thesis
      by (simp add: loadCourse_no_reply)
  qed
  moreover have "viewed_pages_count fallback_loaded = 0"
    by (simp add: viewed_pages_count_def fallback_loaded_fields viewed_def)
  then have "weightedProgress fallback_loaded = 0"
    by (simp add: weightedProgress_percent percent_def total_pages_def fallback_loaded_fields
        total_pages_fallback js_div_def js_mul_def fl_zero Math_round_0)
  moreover have "viewed_pages_count (auto_complete_effect at_last_page) = 17"
    by (simp add: viewed_pages_count_def auto_complete_at_last_page)
      (simp add: buildFallbackTopics_def viewed_def)
  then have "weightedProgress (auto_complete_effect at_last_page) = 30"
    by (simp add: weightedProgress_percent total_pages_def auto_complete_at_last_page
        total_pages_fallback percent_17_57)
  ultimately show ?thesis
    by (simp add: spec_round_percent_def auto_complete_at_last_page)
qed

subsection \<open>Loading the bookmark\<close>

lemma findIndex_range: "- 1 \<le> findIndex P xs \<and> findIndex P xs < int (length xs)"
  by (induction xs) (auto simp add: Let_def)

lemma findIndex_found:
  "0 \<le> findIndex P xs \<Longrightarrow> P (xs ! nat (findIndex P xs))"
proof (induction xs)
  case Nil
  then show ?case by simp
next
  case (Cons x xs)
  show ?case
  proof (cases "P x")
    case True
    then show ?thesis by simp
  next
    case False
    with Cons.prems have i: "0 \<le> findIndex P xs"
      by (simp add: Let_def split: if_splits)
    with False Cons.IH show ?thesis
      by (simp add: Let_def nat_add_distrib)
  qed
qed

lemma findIndex_none: "findIndex P xs < 0 \<longleftrightarrow> (\<forall>x\<in>set xs. \<not> P x)"
  by (induction xs) (auto simp add: Let_def)

lemma apply_bookmark_unknown:
  assumes "topicId bm \<notin> t_id ` set (topics st)"
  shows "apply_bookmark bm st = st"
proof -
  have "\<forall>x\<in>set (topics st). \<not> t_id x = topicId bm"
    using assms by (auto simp add: image_iff)
  then have "findIndex (\<lambda>t. t_id t = topicId bm) (topics st) < 0"
    by (simp only: findIndex_none)
  then show ?thesis
    by (simp add: apply_bookmark_def Let_def)
qed

lemma apply_bookmark_known:
  assumes "topicId bm \<in> t_id ` set (topics st)"
  shows "\<exists>i<length (topics st). t_id (topics st ! i) = topicId bm \<and>
           apply_bookmark bm st = st\<lparr>activeTopicIndex := i, currentPage := imageIndex bm\<rparr>"
proof -
  define k where "k = findIndex (\<lambda>t. t_id t = topicId bm) (topics st)"
  have "\<not> (\<forall>x\<in>set (topics st). \<not> t_id x = topicId bm)"
    using assms by (auto simp add: image_iff)
  then have k: "0 \<le> k"
    unfolding k_def using findIndex_none [of "\<lambda>t. t_id t = topicId bm" "topics st"] by linarith
  then have "t_id (topics st ! nat k) = topicId bm"
    unfolding k_def by (rule findIndex_found)
  moreover have "nat k < length (topics st)"
    using findIndex_range [of "\<lambda>t. t_id t = topicId bm" "topics st"] k
    by (simp add: k_def)
  moreover have "apply_bookmark bm st = st\<lparr>activeTopicIndex := nat k, currentPage := imageIndex bm\<rparr>"
    using k by (simp add: apply_bookmark_def k_def)
  ultimately show ?thesis by blast
qed

lemma loadBookmark_remote:
  "get_bookmark e = Inr (Some bm) \<Longrightarrow> loadBookmark e st = (apply_bookmark bm st, None)"
  by (simp add: loadBookmark_def)

lemma loadBookmark_remote_null:
  "get_bookmark e = Inr None \<Longrightarrow> loadBookmark e st = (st, None)"
  by (simp add: loadBookmark_def)

lemma loadBookmark_cached:
  assumes "get_bookmark e = Inl err"
    and "localStorage e (bookmark_key e) = Some ls" and "ls \<noteq> []"
  shows "loadBookmark e st =
    (case JSON_parse_bookmark e ls of
       Inl thrown \<Rightarrow> (st, Some thrown)
     | Inr None \<Rightarrow> (st, Some TypeError)
     | Inr (Some bm) \<Rightarrow> (apply_bookmark bm st, None))"
  using assms by (simp add: loadBookmark_def)

text \<open>
  C7, as amended. For every bookmark obtained at load time, from the server's reply or,
  when the request fails, from the local cache, the validation does not throw. A bookmark
  whose topic id names no topic of the loaded course is treated as absent: the state
  stays as it is. A bookmark whose topic id names a topic sets the active topic to it and
  the current page to the bookmark's page index as it is; there is no range check.
\<close>

theorem bookmark_applied_as_is:
  "get_bookmark e = Inr (Some bm) \<or>
   ((\<exists>err. get_bookmark e = Inl err) \<and>
    (\<exists>ls. localStorage e (bookmark_key e) = Some ls \<and> ls \<noteq> [] \<and>
          JSON_parse_bookmark e ls = Inr (Some bm))) \<longrightarrow>
   snd (loadBookmark e st) = None \<and>
   (topicId bm \<notin> t_id ` set (topics st) \<longrightarrow> fst (loadBookmark e st) = st) \<and>
   (topicId bm \<in> t_id ` set (topics st) \<longrightarrow>
      (\<exists>i<length (topics st). t_id (topics st ! i) = topicId bm \<and>
         fst (loadBookmark e st) = st\<lparr>activeTopicIndex := i, currentPage := imageIndex bm\<rparr>))"
proof
  assume "get_bookmark e = Inr (Some bm) \<or>
   ((\<exists>err. get_bookmark e = Inl err) \<and>
    (\<exists>ls. localStorage e (bookmark_key e) = Some ls \<and> ls \<noteq> [] \<and>
          JSON_parse_bookmark e ls = Inr (Some bm)))"
  then have "loadBookmark e st = (apply_bookmark bm st, None)"
    by (auto simp add: loadBookmark_remote loadBookmark_cached)
  then show "snd (loadBookmark e st) = None \<and>
   (topicId bm \<notin> t_id ` set (topics st) \<longrightarrow> fst (loadBookmark e st) = st) \<and>
   (topicId bm \<in> t_id ` set (topics st) \<longrightarrow>
      (\<exists>i<length (topics st). t_id (topics st ! i) = topicId bm \<and>
         fst (loadBookmark e st) = st\<lparr>activeTopicIndex := i, currentPage := imageIndex bm\<rparr>))"
    using apply_bookmark_unknown [of bm st] apply_bookmark_known [of bm st] by simp
qed

lemma apply_bookmark_t2:
  "apply_bookmark \<lparr>topicId = ''t2'', imageIndex = n\<rparr> fallback_loaded =
     fallback_loaded\<lparr>activeTopicIndex := 1, currentPage := n\<rparr>"
  by (simp add: apply_bookmark_def fallback_loaded_fields) (simp add: buildFallbackTopics_def)

text \<open>
  C7 as stated fails: the second fallback topic has 4 pages, and a bookmark on its page
  index 99 is applied with neither clamping nor rejection.
\<close>

theorem bookmark_out_of_range_counterexample:
  "get_bookmark bookmark_99 = Inr (Some \<lparr>topicId = ''t2'', imageIndex = 99\<rparr>) \<and>
   snd (loadBookmark bookmark_99 fallback_loaded) = None \<and>
   activeTopicIndex (fst (loadBookmark bookmark_99 fallback_loaded)) = 1 \<and>
   pageCount (topics fallback_loaded ! 1) = 4 \<and>
   currentPage (fst (loadBookmark bookmark_99 fallback_loaded)) = 99"
proof -
  have g: "get_bookmark bookmark_99 = Inr (Some \<lparr>topicId = ''t2'', imageIndex = 99\<rparr>)"
    by (simp add: bookmark_99_def offline_def)
  have "pageCount (topics fallback_loaded ! 1) = 4"
    by (simp add: fallback_loaded_fields) (simp add: buildFallbackTopics_def pageCount_def Array_from_def)
  with g show ?thesis
    by (simp add: loadBookmark_remote [OF g] apply_bookmark_t2)
qed


lemma example_envs:
  "get_bookmark bookmark_99 = Inr (Some \<lparr>topicId = ''t2'', imageIndex = 99\<rparr>)"
  "get_bookmark remote_null = Inr None"
  "get_bookmark remote_down = Inl NetworkError"
  "get_bookmark broken_cache = Inl NetworkError"
  "get_bookmark null_cache = Inl NetworkError"
  "localStorage remote_null (bookmark_key remote_null) = Some bookmark_text"
  "localStorage remote_down (bookmark_key remote_down) = Some bookmark_text"
  "localStorage broken_cache (bookmark_key broken_cache) = Some ''{''"
  "localStorage null_cache (bookmark_key null_cache) = Some ''null''"
  "JSON_parse_bookmark remote_null = parse_example"
  "JSON_parse_bookmark remote_down = parse_example"
  "JSON_parse_bookmark broken_cache = parse_example"
  "JSON_parse_bookmark null_cache = parse_example"
  by (simp_all add: bookmark_99_def remote_null_def remote_down_def broken_cache_def
      null_cache_def offline_def template_def bookmark_key_def)

lemma parse_example_values:
  "bookmark_text \<noteq> []"
  "parse_example bookmark_text = Inr (Some \<lparr>topicId = ''t2'', imageIndex = 1\<rparr>)"
  "parse_example ''null'' = Inr None"
  "parse_example ''{'' = Inl SyntaxError"
  by (simp_all add: parse_example_def bookmark_text_def)

lemma t2_in_fallback: "''t2'' \<in> t_id ` set (topics fallback_loaded)"
  by (simp add: fallback_loaded_fields) (simp add: buildFallbackTopics_def)

theorem bookmark_applied_as_is_witness:
  "get_bookmark bookmark_99 = Inr (Some \<lparr>topicId = ''t2'', imageIndex = 99\<rparr>) \<and>
   ''t2'' \<in> t_id ` set (topics fallback_loaded) \<and>
   snd (loadBookmark bookmark_99 fallback_loaded) = None \<and>
   (\<exists>i<length (topics fallback_loaded). t_id (topics fallback_loaded ! i) = ''t2'' \<and>
      fst (loadBookmark bookmark_99 fallback_loaded) =
        fallback_loaded\<lparr>activeTopicIndex := i, currentPage := 99\<rparr>) \<and>
   ''t2'' \<notin> t_id ` set (topics initial) \<and>
   fst (loadBookmark bookmark_99 initial) = initial \<and>
   get_bookmark remote_down = Inl NetworkError \<and>
   localStorage remote_down (bookmark_key remote_down) = Some bookmark_text \<and>
   bookmark_text \<noteq> [] \<and>
   JSON_parse_bookmark remote_down bookmark_text = Inr (Some \<lparr>topicId = ''t2'', imageIndex = 1\<rparr>) \<and>
   snd (loadBookmark remote_down fallback_loaded) = None \<and>
   (\<exists>i<length (topics fallback_loaded). t_id (topics fallback_loaded ! i) = ''t2'' \<and>
      fst (loadBookmark remote_down fallback_loaded) =
        fallback_loaded\<lparr>activeTopicIndex := i, currentPage := 1\<rparr>)"
proof -
  have i: "''t2'' \<notin> t_id ` set (topics initial)"
    by (simp add: initial_def)
  from bookmark_applied_as_is [of bookmark_99 "\<lparr>topicId = ''t2'', imageIndex = 99\<rparr>" fallback_loaded]
    bookmark_applied_as_is [of bookmark_99 "\<lparr>topicId = ''t2'', imageIndex = 99\<rparr>" initial]
    bookmark_applied_as_is [of remote_down "\<lparr>topicId = ''t2'', imageIndex = 1\<rparr>" fallback_loaded]
  show ?thesis
    by (simp add: example_envs parse_example_values t2_in_fallback i)
qed

text \<open>
  C8, as amended. \<open>loadBookmark\<close> asks the server first. The local cache is read only
  when that request fails; a cached bookmark that parses is then applied, and if its
  topic is in the course the active topic and page are set from it. When the request
  succeeds the reply alone decides: a bookmark in the reply is applied, and on a
  \<open>null\<close> reply the state stays as it is and the cache is not read.
\<close>

theorem cache_read_only_on_failure:
  "((\<exists>err. get_bookmark e = Inl err) \<and>
    localStorage e (bookmark_key e) = Some ls \<and> ls \<noteq> [] \<and>
    JSON_parse_bookmark e ls = Inr (Some bm) \<longrightarrow>
      loadBookmark e st = (apply_bookmark bm st, None)) \<and>
   (get_bookmark e = Inr (Some bm) \<longrightarrow> loadBookmark e st = (apply_bookmark bm st, None)) \<and>
   (get_bookmark e = Inr None \<longrightarrow> loadBookmark e st = (st, None)) \<and>
   (topicId bm \<in> t_id ` set (topics st) \<longrightarrow>
      (\<exists>i<length (topics st). t_id (topics st ! i) = topicId bm \<and>
         apply_bookmark bm st = st\<lparr>activeTopicIndex := i, currentPage := imageIndex bm\<rparr>))"
  using apply_bookmark_known [of bm st]
  by (auto simp add: loadBookmark_remote loadBookmark_remote_null loadBookmark_cached)

theorem cache_read_only_on_failure_witness:
  "get_bookmark remote_down = Inl NetworkError \<and>
   localStorage remote_down (bookmark_key remote_down) = Some bookmark_text \<and>
   bookmark_text \<noteq> [] \<and>
   JSON_parse_bookmark remote_down bookmark_text = Inr (Some \<lparr>topicId = ''t2'', imageIndex = 1\<rparr>) \<and>
   loadBookmark remote_down fallback_loaded =
     (fallback_loaded\<lparr>activeTopicIndex := 1, currentPage := 1\<rparr>, None) \<and>
   get_bookmark bookmark_99 = Inr (Some \<lparr>topicId = ''t2'', imageIndex = 99\<rparr>) \<and>
   loadBookmark bookmark_99 fallback_loaded =
     (fallback_loaded\<lparr>activeTopicIndex := 1, currentPage := 99\<rparr>, None) \<and>
   get_bookmark remote_null = Inr None \<and>
   loadBookmark remote_null fallback_loaded = (fallback_loaded, None) \<and>
   ''t2'' \<in> t_id ` set (topics fallback_loaded)"
  using cache_read_only_on_failure [of remote_down bookmark_text "\<lparr>topicId = ''t2'', imageIndex = 1\<rparr>" fallback_loaded]
    cache_read_only_on_failure [of bookmark_99 bookmark_text "\<lparr>topicId = ''t2'', imageIndex = 99\<rparr>" fallback_loaded]
    cache_read_only_on_failure [of remote_null bookmark_text "\<lparr>topicId = ''t2'', imageIndex = 1\<rparr>" fallback_loaded]
  by (simp add: example_envs parse_example_values t2_in_fallback apply_bookmark_t2)

text \<open>
  C8 as stated fails: with a \<open>null\<close> reply and a valid bookmark in the cache the reader
  stays at topic 0, page 0, while the same cache is applied when the request fails.
\<close>

theorem cached_bookmark_ignored_counterexample:
  "get_bookmark remote_null = Inr None \<and>
   localStorage remote_null (bookmark_key remote_null) = Some bookmark_text \<and>
   JSON_parse_bookmark remote_null bookmark_text = Inr (Some \<lparr>topicId = ''t2'', imageIndex = 1\<rparr>) \<and>
   ''t2'' \<in> t_id ` set (topics fallback_loaded) \<and>
   activeTopicIndex (fst (loadBookmark remote_null fallback_loaded)) = 0 \<and>
   currentPage (fst (loadBookmark remote_null fallback_loaded)) = 0 \<and>
   activeTopicIndex (fst (loadBookmark remote_down fallback_loaded)) = 1 \<and>
   currentPage (fst (loadBookmark remote_down fallback_loaded)) = 1"
proof -
  have "loadBookmark remote_down fallback_loaded =
      (apply_bookmark \<lparr>topicId = ''t2'', imageIndex = 1\<rparr> fallback_loaded, None)"
    by (simp add: loadBookmark_cached [of remote_down NetworkError bookmark_text] example_envs
        parse_example_values)
  then show ?thesis
    by (simp add: loadBookmark_remote_null example_envs parse_example_values t2_in_fallback
        apply_bookmark_t2 fallback_loaded_fields(2,3))
qed

text \<open>
  The \<open>JSON.parse\<close> calls on the cached bookmark and on the cached notes stand inside
  \<open>catch\<close> blocks with no \<open>try\<close> of their own, unlike those on the cached viewed pages
  and completed topics.
\<close>

lemma loadBookmark_raises:
  assumes "get_bookmark e = Inl err"
    and "localStorage e (bookmark_key e) = Some ls" and "ls \<noteq> []"
    and "JSON_parse_bookmark e ls = Inl thrown"
  shows "loadBookmark e st = (st, Some thrown)"
  using assms by (simp add: loadBookmark_cached)

lemma loadCourse_raises:
  assumes "\<not> falsy (courseId e)" and "get_course e = Inl err"
    and "localStorage e (notes_key e) = Some ls" and "ls \<noteq> []"
    and "JSON_parse_notes e ls = Inl thrown"
  shows "snd (loadCourse e st) = Some thrown"
  using assms
  by (simp add: loadCourse_no_reply network_error_fallback_def notes_from_cache_def)

text \<open>
  C9 fails on the code. With the server down, a cached bookmark that is not JSON makes
  the bookmark effect end in a \<open>SyntaxError\<close>, a cached \<open>null\<close> makes it end in a
  \<open>TypeError\<close>, and cached notes that are not JSON make the course effect end in a
  \<open>SyntaxError\<close>.
\<close>

theorem unguarded_parse_raises:
  "loadBookmark broken_cache fallback_loaded = (fallback_loaded, Some SyntaxError) \<and>
   loadBookmark null_cache fallback_loaded = (fallback_loaded, Some TypeError) \<and>
   snd (loadCourse broken_notes initial) = Some SyntaxError"
proof -
  have "loadBookmark broken_cache fallback_loaded = (fallback_loaded, Some SyntaxError)"
    by (rule loadBookmark_raises [of _ NetworkError "''{''"])
      (simp_all add: example_envs parse_example_values)
  moreover have "loadBookmark null_cache fallback_loaded = (fallback_loaded, Some TypeError)"
    by (simp add: loadBookmark_cached [of null_cache NetworkError "''null''"] example_envs
        parse_example_values)
  moreover have "snd (loadCourse broken_notes initial) = Some SyntaxError"
    by (rule loadCourse_raises [of _ NetworkError "''{''"])
      (simp_all add: broken_notes_def offline_def falsy_def template_def no_json_def notes_key_def)
  ultimately show ?thesis by simp
qed


subsection \<open>Monotone progress\<close>

lemma apply_call_topics: "topics (apply_call st c) = topics st"
  by (cases c) (simp_all add: mtc_topics)

lemma find_distinct:
  "distinct (map t_id ts) \<Longrightarrow> t \<in> set ts \<Longrightarrow> find (\<lambda>x. t_id x = t_id t) ts = Some t"
  by (induction ts) (auto simp add: image_iff)

lemma finite_all_pages: "finite (all_pages t)"
  by (simp add: all_pages_def)

lemma range_valid_iff:
  "range_valid st \<longleftrightarrow>
     (\<forall>t\<in>set (topics st). \<forall>s. viewedPages st (t_id t) = Some s \<longrightarrow> s \<subseteq> all_pages t)"
  by (auto simp add: range_valid_def list_all_iff split: option.splits)

lemma viewed_update_other:
  "t_id t \<noteq> tid \<Longrightarrow> viewed (vp(tid \<mapsto> s)) t = viewed vp t"
  by (simp add: viewed_def)

lemma viewed_update_same:
  "t_id t = tid \<Longrightarrow> viewed (vp(tid \<mapsto> s)) t = card s"
  by (simp add: viewed_def)

lemma step_page:
  assumes d: "distinct (map t_id (topics st))" and r: "range_valid st"
    and v: "valid_call (topics st) (MarkPageViewed tid page)"
  shows "range_valid (apply_call st (MarkPageViewed tid page)) \<and>
    (\<forall>t\<in>set (topics st).
       viewed (viewedPages st) t \<le> viewed (viewedPages (apply_call st (MarkPageViewed tid page))) t)"
proof -
  from v obtain t0 where f: "find (\<lambda>t. t_id t = tid) (topics st) = Some t0"
    and p: "0 \<le> page" "page < int (length (images t0))"
    by (auto split: option.splits)
  define s0 where "s0 = (case viewedPages st tid of None \<Rightarrow> {} | Some s \<Rightarrow> s)"
  have vp: "viewedPages (apply_call st (MarkPageViewed tid page)) = (viewedPages st)(tid \<mapsto> insert page s0)"
    by (simp add: markPageViewed_def s0_def)
  have t0: "t_id t0 = tid" "t0 \<in> set (topics st)"
    using find_t_id [OF f] by simp_all
  have same: "t = t0" if "t \<in> set (topics st)" "t_id t = tid" for t
    using find_distinct [OF d that(1)] f that(2) by simp
  have s0: "s0 \<subseteq> all_pages t0"
    using r t0 by (auto simp add: range_valid_iff s0_def split: option.splits)
  have ins: "insert page s0 \<subseteq> all_pages t0"
    using s0 p by (simp add: all_pages_def)
  have "range_valid (apply_call st (MarkPageViewed tid page))"
    unfolding range_valid_iff vp
    using r ins same by (auto simp add: range_valid_iff)
  moreover have "viewed (viewedPages st) t \<le> viewed ((viewedPages st)(tid \<mapsto> insert page s0)) t"
    if t: "t \<in> set (topics st)" for t
  proof (cases "t_id t = tid")
    case False
    then show ?thesis by (simp add: viewed_update_other)
  next
    case True
    have "finite (insert page s0)"
      using ins finite_all_pages by (rule finite_subset)
    then have "card s0 \<le> card (insert page s0)"
      by (intro card_mono) auto
    moreover have "viewed (viewedPages st) t \<le> card s0"
      by (simp add: viewed_def True s0_def split: option.splits)
    ultimately show ?thesis
      by (simp add: viewed_update_same True)
  qed
  ultimately show ?thesis
    by (simp only: vp) simp
qed

lemma step_complete:
  assumes d: "distinct (map t_id (topics st))" and r: "range_valid st"
    and v: "valid_call (topics st) (MarkTopicComplete tid)"
  shows "range_valid (apply_call st (MarkTopicComplete tid)) \<and>
    (\<forall>t\<in>set (topics st).
       viewed (viewedPages st) t \<le> viewed (viewedPages (apply_call st (MarkTopicComplete tid))) t)"
proof -
  from v obtain t0 where f: "find (\<lambda>t. t_id t = tid) (topics st) = Some t0"
    by auto
  have vp: "viewedPages (apply_call st (MarkTopicComplete tid)) = (viewedPages st)(tid \<mapsto> all_pages t0)"
    by (simp add: mtc_viewedPages f)
  have tp: "topics (apply_call st (MarkTopicComplete tid)) = topics st"
    by (rule apply_call_topics)
  have same: "t = t0" if "t \<in> set (topics st)" "t_id t = tid" for t
    using find_distinct [OF d that(1)] f that(2) by simp
  have "range_valid (apply_call st (MarkTopicComplete tid))"
    unfolding range_valid_iff vp tp
    using r same by (auto simp add: range_valid_iff)
  moreover have "viewed (viewedPages st) t \<le> viewed ((viewedPages st)(tid \<mapsto> all_pages t0)) t"
    if t: "t \<in> set (topics st)" for t
  proof (cases "t_id t = tid")
    case False
    then show ?thesis by (simp add: viewed_update_other)
  next
    case True
    with t have "t = t0" by (rule same)
    have "viewed (viewedPages st) t \<le> card (all_pages t0)"
    proof (cases "viewedPages st (t_id t)")
      case None
      then show ?thesis by (simp add: viewed_def)
    next
      case (Some s)
      with r t \<open>t = t0\<close> have "s \<subseteq> all_pages t0"
        by (auto simp add: range_valid_iff)
      then have "card s \<le> card (all_pages t0)"
        using finite_all_pages by (intro card_mono)
      with Some show ?thesis by (simp add: viewed_def)
    qed
    then show ?thesis
      by (simp add: viewed_update_same True)
  qed
  ultimately show ?thesis
    by (simp only: vp) simp
qed

lemma step_monotone:
  assumes d: "distinct (map t_id (topics st))" and r: "range_valid st"
    and v: "valid_call (topics st) c"
  shows "range_valid (apply_call st c) \<and> weightedProgress st \<le> weightedProgress (apply_call st c)"
proof -
  have s: "range_valid (apply_call st c) \<and>
    (\<forall>t\<in>set (topics st). viewed (viewedPages st) t \<le> viewed (viewedPages (apply_call st c)) t)"
    using step_page [OF d r] step_complete [OF d r] v by (cases c) blast+
  then have "viewed_pages_count st \<le> viewed_pages_count (apply_call st c)"
    unfolding viewed_pages_count_def apply_call_topics
    by (intro sum_list_mono) simp
  moreover have "total_pages (apply_call st c) = total_pages st"
    by (simp add: total_pages_def apply_call_topics)
  ultimately show ?thesis
    using s by (simp add: weightedProgress_percent percent_mono)
qed

lemma progress_trace_head: "\<exists>xs. progress_trace st cs = weightedProgress st # xs"
  by (cases cs) simp_all

text \<open>
  C4. Take a course whose topics have distinct ids and a state in which the viewed pages
  of every topic lie in its index range, as they do in a fresh state. Along any sequence
  of \<open>markPageViewed\<close> and \<open>markTopicComplete\<close> calls with valid arguments the successive
  values of \<open>weightedProgress\<close> never decrease, and the viewed pages stay in range.
\<close>

theorem weightedProgress_monotone:
  "distinct (map t_id (topics st)) \<and> range_valid st \<and> list_all (valid_call (topics st)) cs \<longrightarrow>
   sorted (progress_trace st cs) \<and> range_valid (foldl apply_call st cs)"
proof (induction cs arbitrary: st)
  case Nil
  then show ?case by simp
next
  case (Cons c cs)
  show ?case
  proof (intro impI)
    assume a: "distinct (map t_id (topics st)) \<and> range_valid st \<and>
      list_all (valid_call (topics st)) (c # cs)"
    then have d: "distinct (map t_id (topics st))" and r: "range_valid st"
      and v: "valid_call (topics st) c" and vs: "list_all (valid_call (topics st)) cs"
      by simp_all
    from step_monotone [OF d r v]
    have r': "range_valid (apply_call st c)"
      and le: "weightedProgress st \<le> weightedProgress (apply_call st c)"
      by simp_all
    from Cons.IH [of "apply_call st c"] d r' vs
    have ih: "sorted (progress_trace (apply_call st c) cs)"
      "range_valid (foldl apply_call (apply_call st c) cs)"
      by (simp_all add: apply_call_topics)
    obtain xs where xs: "progress_trace (apply_call st c) cs = weightedProgress (apply_call st c) # xs"
      using progress_trace_head by blast
    with ih le have "sorted (weightedProgress st # progress_trace (apply_call st c) cs)"
      by (simp only: sorted2)
    with ih show "sorted (progress_trace st (c # cs)) \<and> range_valid (foldl apply_call st (c # cs))"
      by simp
  qed
qed


lemma fallback_distinct: "distinct (map t_id buildFallbackTopics)"
  by (simp add: buildFallbackTopics_def)

lemma fallback_loaded_valid: "range_valid fallback_loaded"
  by (simp add: range_valid_iff fallback_loaded_fields)

theorem weightedProgress_monotone_witness:
  "distinct (map t_id (topics fallback_loaded)) \<and> range_valid fallback_loaded \<and>
   list_all (valid_call (topics fallback_loaded))
     [MarkPageViewed ''t1'' 0, MarkTopicComplete ''t1'', MarkPageViewed ''t2'' 3,
      MarkPageViewed ''t2'' 3, MarkTopicComplete ''t8''] \<and>
   sorted (progress_trace fallback_loaded
     [MarkPageViewed ''t1'' 0, MarkTopicComplete ''t1'', MarkPageViewed ''t2'' 3,
      MarkPageViewed ''t2'' 3, MarkTopicComplete ''t8''])"
proof -
  have "list_all (valid_call buildFallbackTopics)
     [MarkPageViewed ''t1'' 0, MarkTopicComplete ''t1'', MarkPageViewed ''t2'' 3,
      MarkPageViewed ''t2'' 3, MarkTopicComplete ''t8'']"
    by (simp add: buildFallbackTopics_def Array_from_def)
  with weightedProgress_monotone [of fallback_loaded
     "[MarkPageViewed ''t1'' 0, MarkTopicComplete ''t1'', MarkPageViewed ''t2'' 3,
      MarkPageViewed ''t2'' 3, MarkTopicComplete ''t8'']"]
  show ?thesis
    by (simp add: fallback_loaded_fields(1) fallback_distinct fallback_loaded_valid)
qed

end
